theory Spec2Isabelle
  imports Main "HOL-Library.Word"
begin

section \<open>The bricks planner of glusterd2\<close>

text \<open>
  A shallow embedding of \<^verbatim>\<open>glusterd2/bricksplanner/planner.go\<close>. Go's \<^verbatim>\<open>uint64\<close> and
  \<^verbatim>\<open>int\<close> are both 64-bit words: \<open>+\<close>, \<open>-\<close> and \<open>*\<close> wrap around, \<^verbatim>\<open>uint64\<close> is compared
  through the unsigned order of words and \<^verbatim>\<open>int\<close> through \<open>sint\<close>. The conversions
  \<^verbatim>\<open>int(x)\<close>, \<^verbatim>\<open>uint(x)\<close> and \<^verbatim>\<open>uint64(x)\<close> between them keep the bits, so they do not
  show in the model. A \<^verbatim>\<open>float64\<close> is kept as its 64 bits; no property below looks
  inside one.
\<close>

type_synonym uint64 = "64 word"
type_synonym gint = "64 word"
type_synonym float64 = "64 word"

subsection \<open>Data\<close>

text \<open>The fields of \<^verbatim>\<open>api.BrickReq\<close> that the planner writes.\<close>

record BrickReq =
  b_Type :: string
  b_Path :: string
  b_BrickDirSuffix :: string
  b_TpName :: string
  b_LvName :: string
  b_Size :: uint64
  b_TpSize :: uint64
  b_TpMetadataSize :: uint64
  b_TotalSize :: uint64
  b_FsType :: string
  b_MntOpts :: string
  b_PeerID :: string
  b_VgName :: string
  b_RootDevice :: string
  b_DevicePath :: string

record SubvolReq =
  sv_Type :: string
  sv_Bricks :: "BrickReq list"
  sv_ReplicaCount :: gint
  sv_ArbiterCount :: gint
  sv_DisperseCount :: gint

text \<open>The fields of \<^verbatim>\<open>api.VolCreateReq\<close> that the planner reads or writes.\<close>

record VolCreateReq =
  Name :: string
  Size :: uint64
  ReplicaCount :: gint
  ArbiterCount :: gint
  DisperseCount :: gint
  DisperseDataCount :: gint
  DisperseRedundancyCount :: gint
  DistributeCount :: gint
  MaxBrickSize :: uint64
  ProvisionerType :: string
  SnapshotReserveFactor :: float64
  SubvolZonesOverlap :: bool
  SubvolType :: string
  Subvols :: "SubvolReq list"

text \<open>
  Modelled from the spec: the device record \<^verbatim>\<open>Vg\<close>, whose declaration is not among the
  sources (peer id, name, zone, backing device, available size, used flag). The spec
  says that the working copy of the inventory is mutated during one planning call, so
  the writes \<^verbatim>\<open>vg.AvailableSize -= ...\<close> and \<^verbatim>\<open>vg.Used = true\<close> of \<^verbatim>\<open>PlanBricks\<close> are taken
  to reach the inventory entry.
\<close>

record Vg =
  vg_Name :: string
  vg_Device :: string
  vg_PeerID :: string
  vg_Zone :: string
  vg_AvailableSize :: uint64
  vg_Used :: bool

text \<open>
  One constructor for each \<^verbatim>\<open>errors.New\<close> of the source, one for an error handed up from
  \<^verbatim>\<open>GetAvailableVgs\<close>, and one for the run-time panic of an integer division by zero.
\<close>

datatype error =
    InvalidReplicaCount
  | InvalidArbiterCount
  | RedundancyRequired
  | InvalidRedundancyCount
  | MaxBrickSizeBelowMinimum
  | MaxBrickSizeAboveLoopLimit
  | SubvolTypeNotSupported
  | BrickSizeTooSmall
  | NoDevicesAvailable
  | NoSpaceAvailable
  | InventoryError string
  | DivideByZeroPanic

text \<open>
  Modelled from the spec: the closed error taxonomy of its section 7. The source only
  has messages; each message is filed under the kind the spec gives it.
\<close>

datatype error_kind = ValidationError | PlannerError | SizeError | CapacityError | OtherError

fun kind_of :: "error \<Rightarrow> error_kind" where
  "kind_of InvalidReplicaCount = ValidationError"
| "kind_of InvalidArbiterCount = ValidationError"
| "kind_of RedundancyRequired = ValidationError"
| "kind_of InvalidRedundancyCount = ValidationError"
| "kind_of MaxBrickSizeBelowMinimum = ValidationError"
| "kind_of MaxBrickSizeAboveLoopLimit = ValidationError"
| "kind_of SubvolTypeNotSupported = PlannerError"
| "kind_of BrickSizeTooSmall = SizeError"
| "kind_of NoDevicesAvailable = CapacityError"
| "kind_of NoSpaceAvailable = CapacityError"
| "kind_of (InventoryError m) = OtherError"
| "kind_of DivideByZeroPanic = OtherError"

text \<open>The interface \<^verbatim>\<open>SubvolPlanner\<close> after \<^verbatim>\<open>Init\<close>: its three queries.\<close>

record SubvolPlanner =
  BricksCount :: gint
  BrickSize :: "nat \<Rightarrow> uint64"
  BrickType :: "nat \<Rightarrow> string"

text \<open>
  What the planner calls and the sources do not contain is a parameter of the model:
  the inventory accessor, the default redundancy, the table of layout strategies (a
  strategy is given the request and the subvolume size by \<^verbatim>\<open>Init\<close>), the two sizing
  helpers of \<^verbatim>\<open>lvmutils\<close>, the floating-point product
  \<^verbatim>\<open>uint64(float64(size) * factor)\<close>, and the configured mount root.
\<close>

record env =
  GetAvailableVgs :: "VolCreateReq \<Rightarrow> error + Vg list"
  GetRedundancy :: "gint \<Rightarrow> gint"
  subvolPlanners :: "string \<Rightarrow> (VolCreateReq \<Rightarrow> uint64 \<Rightarrow> SubvolPlanner) option"
  NormalizeSize :: "uint64 \<Rightarrow> uint64"
  GetPoolMetadataSize :: "uint64 \<Rightarrow> uint64"
  scaleByFactor :: "uint64 \<Rightarrow> float64 \<Rightarrow> uint64"
  bricksMountRoot :: string

text \<open>
  Modelled from the spec: the units \<^verbatim>\<open>gutils.MiB\<close> and \<^verbatim>\<open>gutils.GiB\<close> and the constant
  \<^verbatim>\<open>api.ProvisionerTypeLoop\<close> are not among the sources. The spec has the minimum brick
  size at 20 MiB and the loop-back limit at 100 GiB, so the units are the binary ones;
  the name of the loop-back provisioner is only ever compared.
\<close>

definition MiB :: uint64 where
  "MiB = 1048576"

definition GiB :: uint64 where
  "GiB = 1073741824"

definition minBrickSize :: uint64 where
  "minBrickSize = 20 * MiB"

definition defaultMaxLoopBrickSize :: uint64 where
  "defaultMaxLoopBrickSize = 100 * GiB"

definition ProvisionerTypeLoop :: string where
  "ProvisionerTypeLoop = ''loop''"

subsection \<open>The topology resolver\<close>

text \<open>
  Both handlers change the request in place and return an error or nil: the model
  returns the error, if any, with the request as the handler leaves it.
\<close>

definition handleReplicaSubvolReq :: "VolCreateReq \<Rightarrow> error option \<times> VolCreateReq" where
  "handleReplicaSubvolReq req =
     (if sint (ReplicaCount req) < 2 then (None, req)
      else if 3 < sint (ReplicaCount req) then (Some InvalidReplicaCount, req)
      else let req1 = req\<lparr>SubvolType := ''replicate''\<rparr>
           in if 1 < sint (ArbiterCount req1) then (Some InvalidArbiterCount, req1)
              else (None, req1))"

definition handleDisperseSubvolReq :: "env \<Rightarrow> VolCreateReq \<Rightarrow> error option \<times> VolCreateReq" where
  "handleDisperseSubvolReq env req =
     (if DisperseCount req = 0 \<and> DisperseDataCount req = 0 \<and> DisperseRedundancyCount req = 0
      then (None, req)
      else let req1 = req\<lparr>SubvolType := ''disperse''\<rparr>
      in if 0 < sint (DisperseDataCount req1) \<and> sint (DisperseRedundancyCount req1) \<le> 0
         then (Some RedundancyRequired, req1)
         else let
           req2 = (if 0 < sint (DisperseDataCount req1)
                   then req1\<lparr>DisperseCount := DisperseDataCount req1 + DisperseRedundancyCount req1\<rparr>
                   else req1);
           req3 = (if sint (DisperseRedundancyCount req2) \<le> 0
                   then req2\<lparr>DisperseRedundancyCount := GetRedundancy env (DisperseCount req2)\<rparr>
                   else req2);
           req4 = (if sint (DisperseDataCount req3) \<le> 0
                   then req3\<lparr>DisperseDataCount := DisperseCount req3 - DisperseRedundancyCount req3\<rparr>
                   else req3)
         in if sint (DisperseCount req4) \<le> sint (2 * DisperseRedundancyCount req4)
            then (Some InvalidRedundancyCount, req4)
            else (None, req4))"

subsection \<open>The layout generator\<close>

text \<open>\<^verbatim>\<open>%d\<close> of \<^verbatim>\<open>fmt.Sprintf\<close> on a number that is not negative.\<close>

function decimal :: "nat \<Rightarrow> string" where
  "decimal n = (if n < 10 then [char_of (48 + n)] else decimal (n div 10) @ [char_of (48 + n mod 10)])"
  by pat_completeness auto
termination
  by (relation "measure id") auto

declare decimal.simps [simp del]

text \<open>Lines 91 to 105 of \<^verbatim>\<open>getBricksLayout\<close>: the bounds of the max brick size.\<close>

definition checkMaxBrickSize :: "VolCreateReq \<Rightarrow> error option \<times> VolCreateReq" where
  "checkMaxBrickSize req =
     (if 0 < MaxBrickSize req \<and> MaxBrickSize req < minBrickSize
      then (Some MaxBrickSizeBelowMinimum, req)
      else if ProvisionerType req = ProvisionerTypeLoop
      then (if defaultMaxLoopBrickSize < MaxBrickSize req
            then (Some MaxBrickSizeAboveLoopLimit, req)
            else if MaxBrickSize req = 0
            then (None, req\<lparr>MaxBrickSize := defaultMaxLoopBrickSize\<rparr>)
            else (None, req))
      else (None, req))"

text \<open>
  Lines 107 to 121: the distribute count from the max brick size. The product and the
  increment wrap around; the division panics on a zero divisor.
\<close>

definition decideDistributeCount :: "VolCreateReq \<Rightarrow> error option \<times> VolCreateReq" where
  "decideDistributeCount req =
     (if 0 < MaxBrickSize req \<and> MaxBrickSize req < Size req
      then let maxSubvolSize = (if 0 < sint (DisperseDataCount req)
                                then MaxBrickSize req * DisperseDataCount req
                                else MaxBrickSize req)
           in if maxSubvolSize = 0 then (Some DivideByZeroPanic, req)
              else let req1 = req\<lparr>DistributeCount := Size req div maxSubvolSize\<rparr>
                   in if 0 < Size req mod maxSubvolSize
                      then (None, req1\<lparr>DistributeCount := DistributeCount req1 + 1\<rparr>)
                      else (None, req1)
      else (None, req))"

text \<open>Lines 123 to 132: the locals \<^verbatim>\<open>numSubvols\<close> and \<^verbatim>\<open>subvolSize\<close>.\<close>

definition numSubvols :: "VolCreateReq \<Rightarrow> gint" where
  "numSubvols req = (if 0 < sint (DistributeCount req) then DistributeCount req else 1)"

definition subvolSize :: "VolCreateReq \<Rightarrow> uint64" where
  "subvolSize req =
     (if 1 < sint (numSubvols req) then Size req div numSubvols req else Size req)"

text \<open>
  A loop that returns at the first error: the results of \<open>f\<close> on the elements in order,
  or the first error met.
\<close>

fun collect :: "('a \<Rightarrow> error + 'b) \<Rightarrow> 'a list \<Rightarrow> error + 'b list" where
  "collect f [] = Inr []"
| "collect f (x # xs) =
     (case f x of
        Inl e \<Rightarrow> Inl e
      | Inr y \<Rightarrow> (case collect f xs of Inl e \<Rightarrow> Inl e | Inr ys \<Rightarrow> Inr (y # ys)))"

text \<open>
  Lines 150 to 176: brick \<open>j\<close> of subvolume \<open>i\<close> (both counted from 0, printed from 1).
  The placement fields are not set: they are Go's empty strings.
\<close>

definition makeBrick :: "env \<Rightarrow> VolCreateReq \<Rightarrow> SubvolPlanner \<Rightarrow> nat \<Rightarrow> nat \<Rightarrow> error + BrickReq" where
  "makeBrick env req pl i j =
     (let eachBrickSize = BrickSize pl j;
          brickType = BrickType pl j
      in if eachBrickSize < minBrickSize then Inl BrickSizeTooSmall
         else let
           eachBrickTpSize = scaleByFactor env eachBrickSize (SnapshotReserveFactor req);
           mntopts = ''rw,inode64,noatime,nouuid,discard'' @
                     (if ProvisionerType req = ProvisionerTypeLoop then '',loop'' else []);
           tpsize = NormalizeSize env eachBrickTpSize;
           tpmsize = GetPoolMetadataSize env eachBrickTpSize
         in Inr \<lparr>
           b_Type = brickType,
           b_Path = bricksMountRoot env @ ''/'' @ Name req @ ''/subvol'' @ decimal (Suc i) @
                    ''/brick'' @ decimal (Suc j) @ ''/brick'',
           b_BrickDirSuffix = ''/brick'',
           b_TpName = ''tp_'' @ Name req @ ''_s'' @ decimal (Suc i) @ ''_b'' @ decimal (Suc j),
           b_LvName = ''brick_'' @ Name req @ ''_s'' @ decimal (Suc i) @ ''_b'' @ decimal (Suc j),
           b_Size = NormalizeSize env eachBrickSize,
           b_TpSize = tpsize,
           b_TpMetadataSize = tpmsize,
           b_TotalSize = tpsize + tpmsize,
           b_FsType = ''xfs'',
           b_MntOpts = mntopts,
           b_PeerID = [],
           b_VgName = [],
           b_RootDevice = [],
           b_DevicePath = [] \<rparr>)"

text \<open>The inner loop over \<open>j < BricksCount()\<close> and the append of one subvolume.\<close>

definition makeSubvol :: "env \<Rightarrow> VolCreateReq \<Rightarrow> SubvolPlanner \<Rightarrow> nat \<Rightarrow> error + SubvolReq" where
  "makeSubvol env req pl i =
     (case collect (makeBrick env req pl i) [0 ..< nat (sint (BricksCount pl))] of
        Inl e \<Rightarrow> Inl e
      | Inr bricks \<Rightarrow> Inr \<lparr>
          sv_Type = SubvolType req,
          sv_Bricks = bricks,
          sv_ReplicaCount = ReplicaCount req,
          sv_ArbiterCount = ArbiterCount req,
          sv_DisperseCount = DisperseCount req \<rparr>)"

text \<open>
  Lines 76 to 121 of \<^verbatim>\<open>getBricksLayout\<close>: the default type, the two handlers, the bounds
  of the max brick size and the distribute count, each step returning at its error.
\<close>

definition resolveRequest :: "env \<Rightarrow> VolCreateReq \<Rightarrow> error option \<times> VolCreateReq" where
  "resolveRequest env req =
     (case handleReplicaSubvolReq (req\<lparr>SubvolType := ''distribute''\<rparr>) of
        (Some e, req1) \<Rightarrow> (Some e, req1)
      | (None, req1) \<Rightarrow>
     (case handleDisperseSubvolReq env req1 of
        (Some e, req2) \<Rightarrow> (Some e, req2)
      | (None, req2) \<Rightarrow>
     (case checkMaxBrickSize req2 of
        (Some e, req3) \<Rightarrow> (Some e, req3)
      | (None, req3) \<Rightarrow> decideDistributeCount req3)))"

text \<open>
  \<^verbatim>\<open>getBricksLayout\<close>: the subvolumes or an error, with the request as the call leaves
  it (it is changed in place, also when the call fails).
\<close>

definition getBricksLayout :: "env \<Rightarrow> VolCreateReq \<Rightarrow> (error + SubvolReq list) \<times> VolCreateReq" where
  "getBricksLayout env req =
     (case resolveRequest env req of
        (Some e, req1) \<Rightarrow> (Inl e, req1)
      | (None, req1) \<Rightarrow>
          (case subvolPlanners env (SubvolType req1) of
             None \<Rightarrow> (Inl SubvolTypeNotSupported, req1)
           | Some init \<Rightarrow>
               (collect (makeSubvol env req1 (init req1 (subvolSize req1)))
                  [0 ..< nat (sint (numSubvols req1))], req1)))"

subsection \<open>The allocator\<close>

text \<open>Lines 225 to 231 (and 255 to 261): the placement fields of a brick put on \<open>vg\<close>.\<close>

definition placeOn :: "string \<Rightarrow> Vg \<Rightarrow> BrickReq \<Rightarrow> BrickReq" where
  "placeOn prov vg b = b\<lparr>
     b_PeerID := vg_PeerID vg,
     b_VgName := vg_Name vg,
     b_RootDevice := vg_Device vg,
     b_DevicePath := (if prov = ProvisionerTypeLoop
                      then vg_Device vg @ ''/'' @ b_TpName b @ ''/'' @ b_LvName b @ ''.img''
                      else ''/dev/'' @ vg_Name vg @ ''/'' @ b_LvName b)\<rparr>"

text \<open>
  The scan \<^verbatim>\<open>for _, vg := range availableVgs\<close> with its \<^verbatim>\<open>break\<close>: the first device, in
  inventory order, with room for a brick of total size \<open>t\<close> in a zone not yet used; in
  the first pass (\<open>fresh\<close>) the device must not be marked used either. The result is
  that device as it was read, and the inventory with its size decremented and its
  used flag set.
\<close>

fun tryVgs :: "bool \<Rightarrow> string set \<Rightarrow> uint64 \<Rightarrow> Vg list \<Rightarrow> (Vg \<times> Vg list) option" where
  "tryVgs fresh zones t [] = None"
| "tryVgs fresh zones t (vg # vgs) =
     (if t \<le> vg_AvailableSize vg \<and> vg_Zone vg \<notin> zones \<and> \<not> (fresh \<and> vg_Used vg)
      then Some (vg, vg\<lparr>vg_AvailableSize := vg_AvailableSize vg - t, vg_Used := True\<rparr> # vgs)
      else (case tryVgs fresh zones t vgs of
              None \<Rightarrow> None
            | Some (c, vgs') \<Rightarrow> Some (c, vg # vgs')))"

text \<open>The state of the allocation: the inventory, the zones map and \<^verbatim>\<open>numBricksAllocated\<close>.\<close>

type_synonym alloc = "Vg list \<times> string set \<times> nat"

definition placeBrick :: "bool \<Rightarrow> string \<Rightarrow> BrickReq \<Rightarrow> alloc \<Rightarrow> BrickReq \<times> alloc" where
  "placeBrick fresh prov b s =
     (case s of (vgs, zones, n) \<Rightarrow>
        (case tryVgs fresh zones (b_TotalSize b) vgs of
           None \<Rightarrow> (b, s)
         | Some (vg, vgs') \<Rightarrow> (placeOn prov vg b, (vgs', insert (vg_Zone vg) zones, Suc n))))"

text \<open>One pass over a run of bricks, in order.\<close>

fun placeBricks :: "bool \<Rightarrow> string \<Rightarrow> BrickReq list \<Rightarrow> alloc \<Rightarrow> BrickReq list \<times> alloc" where
  "placeBricks fresh prov [] s = ([], s)"
| "placeBricks fresh prov (b # bs) s =
     (case placeBrick fresh prov b s of
        (b', s') \<Rightarrow> (case placeBricks fresh prov bs s' of (bs', s'') \<Rightarrow> (b' # bs', s'')))"

text \<open>
  The body of the loop over the subvolumes (lines 210 to 275): the first pass over all
  bricks, then, unless all are counted as allocated, the second pass over the bricks
  from index \<^verbatim>\<open>numBricksAllocated\<close> on.
\<close>

definition planSubvol ::
    "bool \<Rightarrow> string \<Rightarrow> SubvolReq \<Rightarrow> Vg list \<times> string set \<Rightarrow> error + SubvolReq \<times> Vg list \<times> string set" where
  "planSubvol overlap prov sv st =
     (case st of (vgs, zones) \<Rightarrow>
        (case placeBricks True prov (sv_Bricks sv) (vgs, if overlap then {} else zones, 0) of
           (bs1, vgs1, zones1, n1) \<Rightarrow>
             if length (sv_Bricks sv) = n1 then Inr (sv\<lparr>sv_Bricks := bs1\<rparr>, vgs1, zones1)
             else (case placeBricks False prov (drop n1 bs1) (vgs1, zones1, n1) of
                     (bs2, vgs2, zones2, n2) \<Rightarrow>
                       if length (sv_Bricks sv) \<noteq> n2 then Inl NoSpaceAvailable
                       else Inr (sv\<lparr>sv_Bricks := take n1 bs1 @ bs2\<rparr>, vgs2, zones2))))"

fun planSubvols ::
    "bool \<Rightarrow> string \<Rightarrow> SubvolReq list \<Rightarrow> Vg list \<times> string set \<Rightarrow> error + SubvolReq list" where
  "planSubvols overlap prov [] st = Inr []"
| "planSubvols overlap prov (sv # svs) st =
     (case planSubvol overlap prov sv st of
        Inl e \<Rightarrow> Inl e
      | Inr (sv', st') \<Rightarrow>
          (case planSubvols overlap prov svs st' of
             Inl e \<Rightarrow> Inl e
           | Inr svs' \<Rightarrow> Inr (sv' # svs')))"

text \<open>
  \<^verbatim>\<open>PlanBricks\<close>: the error or nil, with the request as the call leaves it. The field
  \<open>Subvols\<close> is written on the last line only.
\<close>

definition PlanBricks :: "env \<Rightarrow> VolCreateReq \<Rightarrow> error option \<times> VolCreateReq" where
  "PlanBricks env req =
     (case GetAvailableVgs env req of
        Inl e \<Rightarrow> (Some e, req)
      | Inr availableVgs \<Rightarrow>
          if length availableVgs = 0 then (Some NoDevicesAvailable, req)
          else (case getBricksLayout env req of
                  (Inl e, req1) \<Rightarrow> (Some e, req1)
                | (Inr subvols, req1) \<Rightarrow>
                    (case planSubvols (SubvolZonesOverlap req1) (ProvisionerType req1) subvols
                            (availableVgs, {}) of
                       Inl e \<Rightarrow> (Some e, req1)
                     | Inr subvols' \<Rightarrow> (None, req1\<lparr>Subvols := subvols'\<rparr>))))"

subsection \<open>Notions for the statements\<close>


definition unplaced :: "BrickReq \<Rightarrow> bool" where
  "unplaced b = (b_PeerID b = [] \<and> b_VgName b = [] \<and> b_RootDevice b = [] \<and> b_DevicePath b = [])"

text \<open>A device of the inventory that names its peer, its volume group and its device.\<close>

definition identified :: "Vg \<Rightarrow> bool" where
  "identified vg = (vg_PeerID vg \<noteq> [] \<and> vg_Name vg \<noteq> [] \<and> vg_Device vg \<noteq> [])"

text \<open>What stays of a device while its size and its used flag change.\<close>

definition ident :: "Vg \<Rightarrow> string \<times> string \<times> string \<times> string" where
  "ident vg = (vg_PeerID vg, vg_Name vg, vg_Device vg, vg_Zone vg)"

text \<open>The brick carries the placement fields that the allocator writes for device \<open>vg\<close>.\<close>

definition sitsOn :: "string \<Rightarrow> BrickReq \<Rightarrow> Vg \<Rightarrow> bool" where
  "sitsOn prov b vg =
     (b_PeerID b = vg_PeerID vg \<and> b_VgName b = vg_Name vg \<and> b_RootDevice b = vg_Device vg \<and>
      b_DevicePath b = (if prov = ProvisionerTypeLoop
                        then vg_Device vg @ ''/'' @ b_TpName b @ ''/'' @ b_LvName b @ ''.img''
                        else ''/dev/'' @ vg_Name vg @ ''/'' @ b_LvName b))"

text \<open>
  A host for each brick of a list: a device of the inventory on which the brick sits,
  or none for a brick that is unplaced.
\<close>

definition hosted :: "Vg list \<Rightarrow> string \<Rightarrow> BrickReq \<Rightarrow> Vg option \<Rightarrow> bool" where
  "hosted vgs prov b d =
     (case d of None \<Rightarrow> unplaced b | Some vg \<Rightarrow> vg \<in> set vgs \<and> sitsOn prov b vg)"

fun chosen :: "'a option list \<Rightarrow> 'a list" where
  "chosen [] = []"
| "chosen (None # ds) = chosen ds"
| "chosen (Some v # ds) = v # chosen ds"

text \<open>
  The bricks of a list sit in pairwise distinct zones: they have hosts whose zones
  are all different. With \<open>Z\<close>, the zones of the hosts are among \<open>Z\<close> as well.
\<close>

definition zonesWithin :: "Vg list \<Rightarrow> string \<Rightarrow> string set \<Rightarrow> BrickReq list \<Rightarrow> bool" where
  "zonesWithin vgs prov Z bs =
     (\<exists>ds. list_all2 (hosted vgs prov) bs ds \<and> distinct (map vg_Zone (chosen ds)) \<and>
           vg_Zone ` set (chosen ds) \<subseteq> Z)"

definition zonesApart :: "Vg list \<Rightarrow> string \<Rightarrow> BrickReq list \<Rightarrow> bool" where
  "zonesApart vgs prov bs =
     (\<exists>ds. list_all2 (hosted vgs prov) bs ds \<and> distinct (map vg_Zone (chosen ds)))"

text \<open>All bricks of a list have one total size.\<close>

definition uniformBricks :: "BrickReq list \<Rightarrow> bool" where
  "uniformBricks bs = (\<forall>b \<in> set bs. \<forall>b' \<in> set bs. b_TotalSize b = b_TotalSize b')"

text \<open>
  The layout of a request is uniform when, if it is generated at all, the bricks of
  each of its subvolumes have one total size.
\<close>

definition uniformLayout :: "env \<Rightarrow> VolCreateReq \<Rightarrow> bool" where
  "uniformLayout env req =
     (case fst (getBricksLayout env req) of
        Inl e \<Rightarrow> True
      | Inr layout \<Rightarrow> list_all (\<lambda>sv. uniformBricks (sv_Bricks sv)) layout)"

text \<open>The free space of an inventory and the space a layout asks for, in bytes.\<close>

definition totalFree :: "Vg list \<Rightarrow> int" where
  "totalFree vgs = sum_list (map (\<lambda>vg. uint (vg_AvailableSize vg)) vgs)"



subsection \<open>Sample inputs\<close>

text \<open>
  An environment and a request for the concrete instances below. The strategies are
  modelled from the spec: distribute emits one brick of the subvolume size, replicate
  emits replica-count bricks of that size, disperse emits disperse-count bricks of
  the subvolume size divided by the data count. Sizes are normalised down to a
  multiple of 512 bytes, and the snapshot reserve factor is taken as 1.
\<close>

definition samplePlanners :: "string \<Rightarrow> (VolCreateReq \<Rightarrow> uint64 \<Rightarrow> SubvolPlanner) option" where
  "samplePlanners t =
     (if t = ''distribute''
      then Some (\<lambda>req sz. \<lparr>BricksCount = 1, BrickSize = (\<lambda>j. sz), BrickType = (\<lambda>j. ''brick'')\<rparr>)
      else if t = ''replicate''
      then Some (\<lambda>req sz. \<lparr>BricksCount = ReplicaCount req, BrickSize = (\<lambda>j. sz),
                           BrickType = (\<lambda>j. ''brick'')\<rparr>)
      else if t = ''disperse''
      then Some (\<lambda>req sz. \<lparr>BricksCount = DisperseCount req,
                           BrickSize = (\<lambda>j. sz div DisperseDataCount req),
                           BrickType = (\<lambda>j. ''brick'')\<rparr>)
      else None)"

definition sampleVg :: "string \<Rightarrow> string \<Rightarrow> uint64 \<Rightarrow> Vg" where
  "sampleVg peer zone avail = \<lparr>
     vg_Name = ''vg-'' @ peer, vg_Device = ''/dev/sdb'', vg_PeerID = peer, vg_Zone = zone,
     vg_AvailableSize = avail, vg_Used = False \<rparr>"

definition sampleEnv :: "Vg list \<Rightarrow> env" where
  "sampleEnv vgs = \<lparr>
     GetAvailableVgs = (\<lambda>req. Inr vgs),
     GetRedundancy = (\<lambda>c. 1),
     subvolPlanners = samplePlanners,
     NormalizeSize = (\<lambda>x. x - x mod 512),
     GetPoolMetadataSize = (\<lambda>x. 4 * MiB),
     scaleByFactor = (\<lambda>x f. x),
     bricksMountRoot = ''/var/run/glusterd2/bricks'' \<rparr>"

definition sampleReq :: VolCreateReq where
  "sampleReq = \<lparr>
     Name = ''vol1'', Size = 300 * GiB, ReplicaCount = 0, ArbiterCount = 0,
     DisperseCount = 0, DisperseDataCount = 0, DisperseRedundancyCount = 0,
     DistributeCount = 0, MaxBrickSize = 0, ProvisionerType = ''lvm'',
     SnapshotReserveFactor = 0x3FF0000000000000, SubvolZonesOverlap = False,
     SubvolType = [], Subvols = [] \<rparr>"

definition sampleVgs :: "Vg list" where
  "sampleVgs = [sampleVg ''p1'' ''z1'' (200 * GiB), sampleVg ''p2'' ''z2'' (200 * GiB),
                sampleVg ''p3'' ''z3'' (200 * GiB)]"

definition twoZoneVgs :: "Vg list" where
  "twoZoneVgs = [sampleVg ''p1'' ''z1'' (200 * GiB), sampleVg ''p2'' ''z2'' (200 * GiB)]"


definition replica3Req :: VolCreateReq where
  "replica3Req = sampleReq\<lparr>ReplicaCount := 3, Size := GiB\<rparr>"

definition twoSubvolReq :: VolCreateReq where
  "twoSubvolReq = sampleReq\<lparr>ReplicaCount := 2, DistributeCount := 2, Size := 2 * GiB\<rparr>"

text \<open>
  A strategy table that differs from the sample one in the replicate entry: the brick
  after the replicas is an arbiter brick of 100 MiB. With it, an inventory whose two
  large devices are marked used already.
\<close>

definition arbiterPlanners :: "string \<Rightarrow> (VolCreateReq \<Rightarrow> uint64 \<Rightarrow> SubvolPlanner) option" where
  "arbiterPlanners t =
     (if t = ''replicate''
      then Some (\<lambda>req sz. \<lparr>BricksCount = ReplicaCount req + ArbiterCount req,
                           BrickSize = (\<lambda>j. if j = nat (sint (ReplicaCount req)) then 100 * MiB else sz),
                           BrickType = (\<lambda>j. if j = nat (sint (ReplicaCount req))
                                              then ''arbiter'' else ''brick'')\<rparr>)
      else samplePlanners t)"

definition usedVgs :: "Vg list" where
  "usedVgs = [(sampleVg ''p1'' ''z1'' (100 * GiB))\<lparr>vg_Used := True\<rparr>,
              (sampleVg ''p2'' ''z2'' (100 * GiB))\<lparr>vg_Used := True\<rparr>,
              sampleVg ''p3'' ''z3'' GiB]"

definition arbiterReq :: VolCreateReq where
  "arbiterReq = sampleReq\<lparr>ReplicaCount := 2, ArbiterCount := 1, Size := 10 * GiB\<rparr>"

section \<open>Lemmas\<close>

subsection \<open>The layout\<close>

lemma collect_Inr:
  "collect f xs = Inr ys \<Longrightarrow> list_all2 (\<lambda>x y. f x = Inr y) xs ys"
  by (induction xs arbitrary: ys) (auto split: sum.splits)

lemma collect_only_error:
  assumes "\<And>x e'. f x = Inl e' \<Longrightarrow> e' = e" and "collect f xs = Inl e'"
  shows "e' = e"
  using assms(2)
  by (induction xs arbitrary: e') (auto split: sum.splits dest: assms(1))

lemma collect_fails:
  assumes "x \<in> set xs" and "f x = Inl e"
  shows "\<exists>e'. collect f xs = Inl e'"
  using assms
  by (induction xs) (auto split: sum.splits)

lemma makeBrick_error: "makeBrick env req pl i j = Inl e \<Longrightarrow> e = BrickSizeTooSmall"
  by (auto simp: makeBrick_def Let_def split: if_splits)

lemma makeBrick_small:
  "BrickSize pl j < minBrickSize \<Longrightarrow> makeBrick env req pl i j = Inl BrickSizeTooSmall"
  by (simp add: makeBrick_def Let_def)

lemma makeBrick_Inr:
  assumes "makeBrick env req pl i j = Inr b"
  shows "minBrickSize \<le> BrickSize pl j" and "b_Size b = NormalizeSize env (BrickSize pl j)"
    and "unplaced b"
    and "b_TotalSize b =
           NormalizeSize env (scaleByFactor env (BrickSize pl j) (SnapshotReserveFactor req)) +
           GetPoolMetadataSize env (scaleByFactor env (BrickSize pl j) (SnapshotReserveFactor req))"
  using assms
  by (auto simp: makeBrick_def Let_def unplaced_def split: if_splits)

lemma makeSubvol_error: "makeSubvol env req pl i = Inl e \<Longrightarrow> e = BrickSizeTooSmall"
  by (auto simp: makeSubvol_def split: sum.splits
      dest!: collect_only_error [rotated, where e = BrickSizeTooSmall] dest: makeBrick_error)

lemma makeSubvol_small:
  assumes "j < nat (sint (BricksCount pl))" and "BrickSize pl j < minBrickSize"
  shows "makeSubvol env req pl i = Inl BrickSizeTooSmall"
proof -
  have "j \<in> set [0 ..< nat (sint (BricksCount pl))]" using assms(1) by simp
  from collect_fails [where f = "makeBrick env req pl i", OF this makeBrick_small [OF assms(2)]]
  obtain e' where "collect (makeBrick env req pl i) [0 ..< nat (sint (BricksCount pl))] = Inl e'"
    by blast
  then have "\<exists>e. makeSubvol env req pl i = Inl e" by (simp add: makeSubvol_def)
  then show ?thesis using makeSubvol_error by blast
qed

lemma makeSubvol_Inr:
  assumes "makeSubvol env req pl i = Inr sv" and "b \<in> set (sv_Bricks sv)"
  shows "\<exists>j. makeBrick env req pl i j = Inr b"
proof -
  from assms(1) obtain bs where c: "collect (makeBrick env req pl i) [0 ..< nat (sint (BricksCount pl))] = Inr bs"
    and sv: "sv_Bricks sv = bs"
    by (auto simp: makeSubvol_def split: sum.splits)
  from collect_Inr [OF c] assms(2) sv show ?thesis
    by (auto simp: list_all2_conv_all_nth in_set_conv_nth)
qed

lemma numSubvols_pos: "0 < nat (sint (numSubvols req))"
  by (simp add: numSubvols_def)

lemma getBricksLayout_small:
  assumes res: "resolveRequest env req = (None, r)"
    and pl: "subvolPlanners env (SubvolType r) = Some init"
    and j: "j < nat (sint (BricksCount (init r (subvolSize r))))"
    and small: "BrickSize (init r (subvolSize r)) j < minBrickSize"
  shows "getBricksLayout env req = (Inl BrickSizeTooSmall, r)"
proof -
  let ?f = "makeSubvol env r (init r (subvolSize r))"
  have "0 \<in> set [0 ..< nat (sint (numSubvols r))]" using numSubvols_pos [of r] by simp
  from collect_fails [where f = ?f, OF this makeSubvol_small [OF j small]]
  obtain e' where c: "collect ?f [0 ..< nat (sint (numSubvols r))] = Inl e'" by blast
  have "e' = BrickSizeTooSmall"
    by (rule collect_only_error [OF _ c]) (rule makeSubvol_error)
  with c res pl show ?thesis by (simp add: getBricksLayout_def)
qed

lemma getBricksLayout_Inr:
  assumes "getBricksLayout env req = (Inr svs, r)" and "sv \<in> set svs" and "b \<in> set (sv_Bricks sv)"
  shows "\<exists>pl i j. makeBrick env r pl i j = Inr b"
proof -
  from assms(1) obtain init where
    c: "collect (makeSubvol env r (init r (subvolSize r))) [0 ..< nat (sint (numSubvols r))] = Inr svs"
    by (auto simp: getBricksLayout_def split: prod.splits option.splits)
  from collect_Inr [OF c] assms(2)
  obtain i where "makeSubvol env r (init r (subvolSize r)) i = Inr sv"
    by (auto simp: list_all2_conv_all_nth in_set_conv_nth)
  from makeSubvol_Inr [OF this assms(3)] show ?thesis by blast
qed

subsection \<open>The scan of the inventory and what a placement leaves alone\<close>

lemma tryVgs_Some:
  assumes "tryVgs fresh Z t vgs = Some (c, vgs')"
  shows "c \<in> set vgs" and "t \<le> vg_AvailableSize c" and "vg_Zone c \<notin> Z"
    and "map ident vgs' = map ident vgs"
    and "totalFree vgs' + uint t = totalFree vgs"
  using assms
  by (induction vgs arbitrary: vgs')
     (auto simp: ident_def totalFree_def uint_sub_lem [THEN iffD1] word_le_def
           split: if_splits option.splits)

lemma ident_set_eq: "map ident vgs' = map ident vgs \<Longrightarrow> ident ` set vgs' = ident ` set vgs"
  by (metis set_map)

lemma placeBrick_cases:
  assumes "placeBrick fresh prov b (vgs, Z, n) = (b', vgs', Z', n')"
  obtains (stuck) "tryVgs fresh Z (b_TotalSize b) vgs = None" "b' = b" "vgs' = vgs" "Z' = Z" "n' = n"
  | (put) c where "tryVgs fresh Z (b_TotalSize b) vgs = Some (c, vgs')" "b' = placeOn prov c b"
      "Z' = insert (vg_Zone c) Z" "n' = Suc n"
  using assms by (auto simp: placeBrick_def split: option.splits)

lemma placeBricks_Cons:
  assumes "placeBricks fresh prov (b # bs) s = (xs, s'')"
  obtains b' s' bs' where "placeBrick fresh prov b s = (b', s')"
    "placeBricks fresh prov bs s' = (bs', s'')" "xs = b' # bs'"
  using assms by (auto split: prod.splits)


text \<open>Placing a brick changes its placement fields only.\<close>

lemma placeBrick_frame:
  assumes "\<And>vg b. f (placeOn prov vg b) = f b"
    and "placeBrick fresh prov b s = (b', s')"
  shows "f b' = f b"
  using assms(2) by (cases s) (auto simp: placeBrick_def assms(1) split: option.splits)

lemma placeBricks_frame:
  assumes "\<And>vg b. f (placeOn prov vg b) = f b"
    and "placeBricks fresh prov bs s = (bs', s')"
  shows "map f bs' = map f bs"
  using assms(2)
proof (induction bs arbitrary: s bs')
  case Nil
  then show ?case by simp
next
  case (Cons b bs)
  from Cons.prems obtain b1 s1 bs1 where
    1: "placeBrick fresh prov b s = (b1, s1)" and 2: "placeBricks fresh prov bs s1 = (bs1, s')"
    and 3: "bs' = b1 # bs1"
    by (rule placeBricks_Cons)
  from placeBrick_frame [of f prov, OF assms(1) 1] Cons.IH [OF 2] 3 show ?case by simp
qed

lemma placeOn_TotalSize: "b_TotalSize (placeOn prov vg b) = b_TotalSize b"
  by (simp add: placeOn_def)

lemma placeOn_Size: "b_Size (placeOn prov vg b) = b_Size b"
  by (simp add: placeOn_def)

lemma planSubvol_frame:
  assumes f: "\<And>vg b. f (placeOn prov vg b) = f b"
    and "planSubvol overlap prov sv st = Inr (sv', st')"
  shows "map f (sv_Bricks sv') = map f (sv_Bricks sv)"
proof -
  obtain vgs Z where st: "st = (vgs, Z)" by (cases st)
  obtain bs1 vgs1 Z1 n1 where
    p1: "placeBricks True prov (sv_Bricks sv) (vgs, if overlap then {} else Z, 0) = (bs1, vgs1, Z1, n1)"
    by (metis prod_cases4)
  have m1: "map f bs1 = map f (sv_Bricks sv)" using placeBricks_frame [of f prov, OF f p1] .
  show ?thesis
  proof (cases "length (sv_Bricks sv) = n1")
    case True
    with assms(2) st p1 have "sv' = sv\<lparr>sv_Bricks := bs1\<rparr>" by (simp add: planSubvol_def)
    with m1 show ?thesis by simp
  next
    case False
    obtain bs2 vgs2 Z2 n2 where
      p2: "placeBricks False prov (drop n1 bs1) (vgs1, Z1, n1) = (bs2, vgs2, Z2, n2)"
      by (metis prod_cases4)
    have m2: "map f bs2 = map f (drop n1 bs1)" using placeBricks_frame [of f prov, OF f p2] .
    from False assms(2) st p1 p2 have "sv' = sv\<lparr>sv_Bricks := take n1 bs1 @ bs2\<rparr>"
      by (simp add: planSubvol_def split: if_splits)
    then have "map f (sv_Bricks sv') = map f (take n1 bs1) @ map f (drop n1 bs1)"
      using m2 by simp
    also have "\<dots> = map f bs1" by (simp flip: map_append)
    finally show ?thesis using m1 by simp
  qed
qed

lemma planSubvols_frame:
  assumes f: "\<And>vg b. f (placeOn prov vg b) = f b"
    and "planSubvols overlap prov svs st = Inr svs'"
  shows "list_all2 (\<lambda>sv sv'. map f (sv_Bricks sv') = map f (sv_Bricks sv)) svs svs'"
  using assms(2)
proof (induction svs arbitrary: st svs')
  case Nil
  then show ?case by simp
next
  case (Cons sv svs)
  from Cons.prems obtain sv1 st1 svs1 where
    1: "planSubvol overlap prov sv st = Inr (sv1, st1)"
    and 2: "planSubvols overlap prov svs st1 = Inr svs1" and 3: "svs' = sv1 # svs1"
    by (auto split: sum.splits)
  from planSubvol_frame [of f prov, OF f 1] Cons.IH [OF 2] 3 show ?case by simp
qed

subsection \<open>Zones\<close>

text \<open>
  Every placement takes a zone outside the zones map and puts it in: so the zones of
  the hosts stay distinct, whichever brick of the list the placement lands on.
\<close>

lemma chosen_append: "chosen (xs @ ys) = chosen xs @ chosen ys"
  by (induction xs rule: chosen.induct) auto

lemma chosen_Cons: "chosen (d # ds) = chosen [d] @ chosen ds"
  by (cases d) auto

lemma sitsOn_placeOn: "ident c = ident u \<Longrightarrow> sitsOn prov (placeOn prov c b) u"
  by (simp add: sitsOn_def placeOn_def ident_def)

lemma zonesWithin_unplaced:
  assumes "\<forall>b \<in> set bs. unplaced b"
  shows "zonesWithin vgs0 prov Z bs"
proof -
  have "list_all2 (hosted vgs0 prov) bs (replicate (length bs) None)"
    using assms by (simp add: list_all2_conv_all_nth hosted_def)
  moreover have "chosen (replicate k (None :: Vg option)) = []" for k
    by (induction k) auto
  ultimately show ?thesis unfolding zonesWithin_def
    by (intro exI [of _ "replicate (length bs) None"]) simp
qed

lemma zonesWithin_apart: "zonesWithin vgs0 prov Z bs \<Longrightarrow> zonesApart vgs0 prov bs"
  unfolding zonesWithin_def zonesApart_def by blast

lemma zonesWithin_place:
  assumes zw: "zonesWithin vgs0 prov Z (pre @ b # post)"
    and u: "u \<in> set vgs0" and cu: "ident c = ident u" and fresh: "vg_Zone c \<notin> Z"
  shows "zonesWithin vgs0 prov (insert (vg_Zone c) Z) (pre @ placeOn prov c b # post)"
proof -
  from zw obtain ds where h: "list_all2 (hosted vgs0 prov) (pre @ b # post) ds"
    and d: "distinct (map vg_Zone (chosen ds))" and z: "vg_Zone ` set (chosen ds) \<subseteq> Z"
    unfolding zonesWithin_def by blast
  from h obtain dpre drest where ds: "ds = dpre @ drest"
    and hpre: "list_all2 (hosted vgs0 prov) pre dpre"
    and hrest: "list_all2 (hosted vgs0 prov) (b # post) drest"
    by (auto simp: list_all2_append1)
  from hrest obtain d0 dpost where drest: "drest = d0 # dpost"
    and hpost: "list_all2 (hosted vgs0 prov) post dpost"
    by (auto simp: list_all2_Cons1)
  let ?ds = "dpre @ Some u # dpost"
  have zu: "vg_Zone u = vg_Zone c" using cu by (simp add: ident_def)
  have cds: "chosen ds = chosen dpre @ chosen [d0] @ chosen dpost"
    unfolding ds drest chosen_append by (subst chosen_Cons) (rule refl)
  have sub: "set (chosen dpre) \<union> set (chosen dpost) \<subseteq> set (chosen ds)"
    unfolding cds by auto
  have "hosted vgs0 prov (placeOn prov c b) (Some u)"
    using u cu by (simp add: hosted_def sitsOn_placeOn)
  with hpre hpost have 1: "list_all2 (hosted vgs0 prov) (pre @ placeOn prov c b # post) ?ds"
    by (simp add: list_all2_appendI)
  have dd: "distinct (map vg_Zone (chosen dpre) @ map vg_Zone (chosen dpost))"
    using d unfolding cds by auto
  have zs: "vg_Zone ` set (chosen dpre) \<subseteq> Z" "vg_Zone ` set (chosen dpost) \<subseteq> Z"
    using z sub by (simp_all add: image_Un subset_iff image_iff) blast+
  have n1: "vg_Zone u \<notin> vg_Zone ` set (chosen dpre)"
    using zs(1) fresh zu by (metis subsetD)
  have n2: "vg_Zone u \<notin> vg_Zone ` set (chosen dpost)"
    using zs(2) fresh zu by (metis subsetD)
  have 2: "distinct (map vg_Zone (chosen ?ds))"
    using dd n1 n2 by (simp add: chosen_append)
  have 3: "vg_Zone ` set (chosen ?ds) \<subseteq> insert (vg_Zone c) Z"
    using zs zu by (simp add: chosen_append image_Un subset_insertI2)
  from 1 2 3 show ?thesis unfolding zonesWithin_def by (intro exI [of _ ?ds] conjI)
qed

lemma placeBricks_zones:
  assumes "placeBricks fresh prov bs (vgs, Z, n) = (bs', vgs', Z', n')"
    and "ident ` set vgs \<subseteq> ident ` set vgs0"
    and "zonesWithin vgs0 prov Z (pre @ bs @ post)"
  shows "zonesWithin vgs0 prov Z' (pre @ bs' @ post) \<and> ident ` set vgs' \<subseteq> ident ` set vgs0"
  using assms
proof (induction bs arbitrary: vgs Z n bs' pre)
  case Nil
  then show ?case by simp
next
  case (Cons b bs)
  from Cons.prems(1) obtain b1 s1 bs1 where
    1: "placeBrick fresh prov b (vgs, Z, n) = (b1, s1)"
    and 2: "placeBricks fresh prov bs s1 = (bs1, vgs', Z', n')" and 3: "bs' = b1 # bs1"
    by (rule placeBricks_Cons)
  obtain vgs1 Z1 n1 where s1: "s1 = (vgs1, Z1, n1)" by (cases s1)
  have step: "zonesWithin vgs0 prov Z1 ((pre @ [b1]) @ bs @ post) \<and>
              ident ` set vgs1 \<subseteq> ident ` set vgs0"
    using 1 [unfolded s1]
  proof (cases rule: placeBrick_cases)
    case stuck
    with Cons.prems show ?thesis by simp
  next
    case (put c)
    from tryVgs_Some [OF put(1)] have c: "c \<in> set vgs" and z: "vg_Zone c \<notin> Z"
      and m: "map ident vgs1 = map ident vgs" by auto
    from c Cons.prems(2) obtain u where u: "u \<in> set vgs0" and cu: "ident c = ident u"
      by (metis image_iff subsetD)
    from zonesWithin_place [of vgs0 prov Z pre b "bs @ post", OF _ u cu z] Cons.prems(3)
    have "zonesWithin vgs0 prov (insert (vg_Zone c) Z) (pre @ placeOn prov c b # bs @ post)"
      by simp
    with put ident_set_eq [OF m] Cons.prems(2) show ?thesis by simp
  qed
  from Cons.IH [OF 2 [unfolded s1] conjunct2 [OF step] conjunct1 [OF step]] 3
  show ?case by simp
qed

lemma planSubvol_zones:
  assumes ok: "planSubvol overlap prov sv (vgs, Z) = Inr (sv', vgs', Z')"
    and sub: "ident ` set vgs \<subseteq> ident ` set vgs0"
    and zw: "zonesWithin vgs0 prov (if overlap then {} else Z) (pre @ sv_Bricks sv @ post)"
  shows "zonesWithin vgs0 prov Z' (pre @ sv_Bricks sv' @ post) \<and>
         ident ` set vgs' \<subseteq> ident ` set vgs0"
proof -
  obtain bs1 vgs1 Z1 n1 where
    p1: "placeBricks True prov (sv_Bricks sv) (vgs, if overlap then {} else Z, 0) = (bs1, vgs1, Z1, n1)"
    by (metis prod_cases4)
  note r1 = placeBricks_zones [OF p1 sub zw]
  have z1: "zonesWithin vgs0 prov Z1 (pre @ bs1 @ post)" using r1 by (rule conjunct1)
  have s1: "ident ` set vgs1 \<subseteq> ident ` set vgs0" using r1 by (rule conjunct2)
  show ?thesis
  proof (cases "length (sv_Bricks sv) = n1")
    case True
    with ok p1 have "sv' = sv\<lparr>sv_Bricks := bs1\<rparr>" "vgs' = vgs1" "Z' = Z1"
      by (auto simp: planSubvol_def)
    with z1 s1 show ?thesis by simp
  next
    case False
    obtain bs2 vgs2 Z2 n2 where
      p2: "placeBricks False prov (drop n1 bs1) (vgs1, Z1, n1) = (bs2, vgs2, Z2, n2)"
      by (metis prod_cases4)
    from False ok p1 p2 have eq: "sv' = sv\<lparr>sv_Bricks := take n1 bs1 @ bs2\<rparr>" "vgs' = vgs2" "Z' = Z2"
      by (auto simp: planSubvol_def split: if_splits)
    have "(pre @ take n1 bs1) @ drop n1 bs1 @ post = pre @ (take n1 bs1 @ drop n1 bs1) @ post"
      by (simp only: append_assoc)
    then have e: "(pre @ take n1 bs1) @ drop n1 bs1 @ post = pre @ bs1 @ post"
      by (simp only: append_take_drop_id)
    have "zonesWithin vgs0 prov Z1 ((pre @ take n1 bs1) @ drop n1 bs1 @ post)"
      unfolding e by (rule z1)
    from placeBricks_zones [OF p2 s1 this] eq show ?thesis by simp
  qed
qed

lemma planSubvols_zones_each:
  assumes "planSubvols overlap prov svs (vgs, Z) = Inr svs'"
    and "ident ` set vgs \<subseteq> ident ` set vgs0"
    and "\<forall>sv \<in> set svs. \<forall>b \<in> set (sv_Bricks sv). unplaced b"
  shows "\<forall>sv' \<in> set svs'. zonesApart vgs0 prov (sv_Bricks sv')"
  using assms
proof (induction svs arbitrary: vgs Z svs')
  case Nil
  then show ?case by simp
next
  case (Cons sv svs)
  from Cons.prems(1) obtain sv1 vgs1 Z1 svs1 where
    1: "planSubvol overlap prov sv (vgs, Z) = Inr (sv1, vgs1, Z1)"
    and 2: "planSubvols overlap prov svs (vgs1, Z1) = Inr svs1" and 3: "svs' = sv1 # svs1"
    by (auto split: sum.splits)
  have "zonesWithin vgs0 prov (if overlap then {} else Z) ([] @ sv_Bricks sv @ [])"
    using Cons.prems(3) by (simp add: zonesWithin_unplaced)
  from planSubvol_zones [OF 1 Cons.prems(2) this]
  have a: "zonesWithin vgs0 prov Z1 (sv_Bricks sv1)" and s: "ident ` set vgs1 \<subseteq> ident ` set vgs0"
    by auto
  from Cons.IH [OF 2 s] Cons.prems(3) have "\<forall>sv' \<in> set svs1. zonesApart vgs0 prov (sv_Bricks sv')"
    by simp
  with zonesWithin_apart [OF a] 3 show ?case by simp
qed

lemma planSubvols_zones_all:
  assumes "planSubvols False prov svs (vgs, Z) = Inr svs'"
    and "ident ` set vgs \<subseteq> ident ` set vgs0"
    and "zonesWithin vgs0 prov Z (pre @ concat (map sv_Bricks svs))"
  shows "zonesApart vgs0 prov (pre @ concat (map sv_Bricks svs'))"
  using assms
proof (induction svs arbitrary: vgs Z svs' pre)
  case Nil
  then have "svs' = []" by simp
  with Nil.prems(3) show ?case by (simp add: zonesWithin_apart)
next
  case (Cons sv svs)
  from Cons.prems(1) obtain sv1 vgs1 Z1 svs1 where
    1: "planSubvol False prov sv (vgs, Z) = Inr (sv1, vgs1, Z1)"
    and 2: "planSubvols False prov svs (vgs1, Z1) = Inr svs1" and 3: "svs' = sv1 # svs1"
    by (auto split: sum.splits)
  have "zonesWithin vgs0 prov (if False then {} else Z)
          (pre @ sv_Bricks sv @ concat (map sv_Bricks svs))"
    using Cons.prems(3) by simp
  from planSubvol_zones [OF 1 Cons.prems(2) this]
  have a: "zonesWithin vgs0 prov Z1 ((pre @ sv_Bricks sv1) @ concat (map sv_Bricks svs))"
    and s: "ident ` set vgs1 \<subseteq> ident ` set vgs0"
    by auto
  have "zonesApart vgs0 prov ((pre @ sv_Bricks sv1) @ concat (map sv_Bricks svs1))"
    by (rule Cons.IH [OF 2 s a])
  then show ?case unfolding 3 by simp
qed

subsection \<open>Bricks of one size\<close>




lemma identified_cong: "ident a = ident b \<Longrightarrow> identified a = identified b"
  by (simp add: ident_def identified_def)

lemma identified_sub:
  assumes "ident ` set vgs \<subseteq> ident ` set vgs0" and "\<forall>v \<in> set vgs0. identified v"
    and "c \<in> set vgs"
  shows "identified c"
proof -
  from assms(1,3) obtain w where "w \<in> set vgs0" "ident c = ident w"
    by (metis image_iff subsetD)
  with assms(2) identified_cong show ?thesis by blast
qed









subsection \<open>What the resolver leaves alone\<close>

lemma handleReplicaSubvolReq_keeps:
  "Subvols (snd (handleReplicaSubvolReq r)) = Subvols r"
  "SubvolZonesOverlap (snd (handleReplicaSubvolReq r)) = SubvolZonesOverlap r"
  "ProvisionerType (snd (handleReplicaSubvolReq r)) = ProvisionerType r"
  "MaxBrickSize (snd (handleReplicaSubvolReq r)) = MaxBrickSize r"
  by (simp_all add: handleReplicaSubvolReq_def Let_def)

lemma handleDisperseSubvolReq_keeps:
  "Subvols (snd (handleDisperseSubvolReq env r)) = Subvols r"
  "SubvolZonesOverlap (snd (handleDisperseSubvolReq env r)) = SubvolZonesOverlap r"
  "ProvisionerType (snd (handleDisperseSubvolReq env r)) = ProvisionerType r"
  "MaxBrickSize (snd (handleDisperseSubvolReq env r)) = MaxBrickSize r"
  by (simp_all add: handleDisperseSubvolReq_def Let_def)

lemma checkMaxBrickSize_keeps:
  "Subvols (snd (checkMaxBrickSize r)) = Subvols r"
  "SubvolZonesOverlap (snd (checkMaxBrickSize r)) = SubvolZonesOverlap r"
  "ProvisionerType (snd (checkMaxBrickSize r)) = ProvisionerType r"
  by (simp_all add: checkMaxBrickSize_def)

lemma decideDistributeCount_keeps:
  "Subvols (snd (decideDistributeCount r)) = Subvols r"
  "SubvolZonesOverlap (snd (decideDistributeCount r)) = SubvolZonesOverlap r"
  "ProvisionerType (snd (decideDistributeCount r)) = ProvisionerType r"
  "MaxBrickSize (snd (decideDistributeCount r)) = MaxBrickSize r"
  by (simp_all add: decideDistributeCount_def Let_def)

text \<open>The steps of the resolver, one after the other.\<close>

lemma resolveRequest_steps:
  obtains (replica) e where
      "fst (handleReplicaSubvolReq (req\<lparr>SubvolType := ''distribute''\<rparr>)) = Some e"
      "resolveRequest env req = (Some e, snd (handleReplicaSubvolReq (req\<lparr>SubvolType := ''distribute''\<rparr>)))"
  | (disperse) r1 e where
      "handleReplicaSubvolReq (req\<lparr>SubvolType := ''distribute''\<rparr>) = (None, r1)"
      "fst (handleDisperseSubvolReq env r1) = Some e"
      "resolveRequest env req = (Some e, snd (handleDisperseSubvolReq env r1))"
  | (bounds) r1 r2 e where
      "handleReplicaSubvolReq (req\<lparr>SubvolType := ''distribute''\<rparr>) = (None, r1)"
      "handleDisperseSubvolReq env r1 = (None, r2)"
      "fst (checkMaxBrickSize r2) = Some e"
      "resolveRequest env req = (Some e, snd (checkMaxBrickSize r2))"
  | (count) r1 r2 r3 where
      "handleReplicaSubvolReq (req\<lparr>SubvolType := ''distribute''\<rparr>) = (None, r1)"
      "handleDisperseSubvolReq env r1 = (None, r2)"
      "checkMaxBrickSize r2 = (None, r3)"
      "resolveRequest env req = decideDistributeCount r3"
proof -
  obtain o1 r1 where h1: "handleReplicaSubvolReq (req\<lparr>SubvolType := ''distribute''\<rparr>) = (o1, r1)"
    by (cases "handleReplicaSubvolReq (req\<lparr>SubvolType := ''distribute''\<rparr>)")
  obtain o2 r2 where h2: "handleDisperseSubvolReq env r1 = (o2, r2)"
    by (cases "handleDisperseSubvolReq env r1")
  obtain o3 r3 where h3: "checkMaxBrickSize r2 = (o3, r3)"
    by (cases "checkMaxBrickSize r2")
  show thesis
  proof (cases o1)
    case (Some e)
    with h1 show ?thesis by (intro replica [of e]) (simp_all add: resolveRequest_def)
  next
    case None
    note n1 = this
    show ?thesis
    proof (cases o2)
      case (Some e)
      with h1 h2 n1 show ?thesis
        by (intro disperse [of r1 e]) (simp_all add: resolveRequest_def)
    next
      case None
      note n2 = this
      show ?thesis
      proof (cases o3)
        case (Some e)
        with h1 h2 h3 n1 n2 show ?thesis
          by (intro bounds [of r1 r2 e]) (simp_all add: resolveRequest_def)
      next
        case None
        with h1 h2 h3 n1 n2 show ?thesis
          by (intro count [of r1 r2 r3]) (simp_all add: resolveRequest_def)
      qed
    qed
  qed
qed

lemma resolveRequest_keeps:
  "Subvols (snd (resolveRequest env req)) = Subvols req"
  "SubvolZonesOverlap (snd (resolveRequest env req)) = SubvolZonesOverlap req"
  "ProvisionerType (snd (resolveRequest env req)) = ProvisionerType req"
proof -
  let ?r0 = "req\<lparr>SubvolType := ''distribute''\<rparr>"
  have "Subvols (snd (resolveRequest env req)) = Subvols req \<and>
        SubvolZonesOverlap (snd (resolveRequest env req)) = SubvolZonesOverlap req \<and>
        ProvisionerType (snd (resolveRequest env req)) = ProvisionerType req"
  proof (cases rule: resolveRequest_steps [of req env])
    case (replica e)
    then show ?thesis by (simp add: handleReplicaSubvolReq_keeps)
  next
    case (disperse r1 e)
    with handleReplicaSubvolReq_keeps [of ?r0] handleDisperseSubvolReq_keeps [of env r1]
    show ?thesis by simp
  next
    case (bounds r1 r2 e)
    with handleReplicaSubvolReq_keeps [of ?r0] handleDisperseSubvolReq_keeps [of env r1]
      checkMaxBrickSize_keeps [of r2]
    show ?thesis by simp
  next
    case (count r1 r2 r3)
    with handleReplicaSubvolReq_keeps [of ?r0] handleDisperseSubvolReq_keeps [of env r1]
      checkMaxBrickSize_keeps [of r2] decideDistributeCount_keeps [of r3]
    show ?thesis by simp
  qed
  then show "Subvols (snd (resolveRequest env req)) = Subvols req"
    "SubvolZonesOverlap (snd (resolveRequest env req)) = SubvolZonesOverlap req"
    "ProvisionerType (snd (resolveRequest env req)) = ProvisionerType req"
    by simp_all
qed

lemma getBricksLayout_snd: "snd (getBricksLayout env req) = snd (resolveRequest env req)"
  by (simp add: getBricksLayout_def split: prod.splits option.splits)

lemma getBricksLayout_keeps:
  "Subvols (snd (getBricksLayout env req)) = Subvols req"
  "SubvolZonesOverlap (snd (getBricksLayout env req)) = SubvolZonesOverlap req"
  "ProvisionerType (snd (getBricksLayout env req)) = ProvisionerType req"
  by (simp_all add: getBricksLayout_snd resolveRequest_keeps)

lemma getBricksLayout_unplaced:
  assumes "getBricksLayout env req = (Inr svs, r)"
  shows "\<forall>sv \<in> set svs. \<forall>b \<in> set (sv_Bricks sv). unplaced b"
  using getBricksLayout_Inr [OF assms] makeBrick_Inr(3) by blast

lemma PlanBricks_success:
  assumes "PlanBricks env req = (None, req')"
  obtains vgs layout req1 plan where
    "GetAvailableVgs env req = Inr vgs" "vgs \<noteq> []"
    "getBricksLayout env req = (Inr layout, req1)"
    "planSubvols (SubvolZonesOverlap req) (ProvisionerType req) layout (vgs, {}) = Inr plan"
    "req' = req1\<lparr>Subvols := plan\<rparr>"
proof -
  from assms obtain vgs where v: "GetAvailableVgs env req = Inr vgs" "vgs \<noteq> []"
    by (auto simp: PlanBricks_def split: sum.splits if_splits)
  with assms obtain layout req1 where l: "getBricksLayout env req = (Inr layout, req1)"
    by (auto simp: PlanBricks_def split: sum.splits prod.splits)
  from getBricksLayout_keeps [of env req] l
  have k: "SubvolZonesOverlap req1 = SubvolZonesOverlap req" "ProvisionerType req1 = ProvisionerType req"
    by simp_all
  from assms v l k obtain plan where
    "planSubvols (SubvolZonesOverlap req) (ProvisionerType req) layout (vgs, {}) = Inr plan"
    "req' = req1\<lparr>Subvols := plan\<rparr>"
    by (auto simp: PlanBricks_def split: sum.splits)
  with v l that show thesis by blast
qed



lemma PlanBricks_layout_fails:
  assumes "getBricksLayout env req = (Inl e, r)"
  shows "fst (PlanBricks env req) \<noteq> None"
proof (cases "GetAvailableVgs env req")
  case (Inl e')
  then show ?thesis by (simp add: PlanBricks_def)
next
  case (Inr vgs)
  with assms show ?thesis by (simp add: PlanBricks_def)
qed

lemma PlanBricks_zones:
  assumes ok: "fst (PlanBricks env req) = None" and inv: "GetAvailableVgs env req = Inr vgs"
  shows "\<forall>sv \<in> set (Subvols (snd (PlanBricks env req))).
           zonesApart vgs (ProvisionerType req) (sv_Bricks sv)"
    and "\<not> SubvolZonesOverlap req \<Longrightarrow>
           zonesApart vgs (ProvisionerType req)
             (concat (map sv_Bricks (Subvols (snd (PlanBricks env req)))))"
proof -
  from ok have "PlanBricks env req = (None, snd (PlanBricks env req))"
    by (metis prod.collapse)
  then obtain vgs' layout req1 plan where
    v: "GetAvailableVgs env req = Inr vgs'"
    and l: "getBricksLayout env req = (Inr layout, req1)"
    and p: "planSubvols (SubvolZonesOverlap req) (ProvisionerType req) layout (vgs', {}) = Inr plan"
    and r: "snd (PlanBricks env req) = req1\<lparr>Subvols := plan\<rparr>"
    by (rule PlanBricks_success)
  from v inv have vv: "vgs' = vgs" by simp
  note un = getBricksLayout_unplaced [OF l]
  from planSubvols_zones_each [OF p [unfolded vv] subset_refl un] r
  show "\<forall>sv \<in> set (Subvols (snd (PlanBricks env req))).
           zonesApart vgs (ProvisionerType req) (sv_Bricks sv)"
    by simp
  assume no: "\<not> SubvolZonesOverlap req"
  have "\<forall>b \<in> set (concat (map sv_Bricks layout)). unplaced b" using un by auto
  then have "zonesWithin vgs (ProvisionerType req) {} ([] @ concat (map sv_Bricks layout))"
    by (simp add: zonesWithin_unplaced)
  from planSubvols_zones_all [OF p [unfolded vv, simplified no] subset_refl this] r
  show "zonesApart vgs (ProvisionerType req)
          (concat (map sv_Bricks (Subvols (snd (PlanBricks env req)))))"
    by simp
qed

lemma PlanBricks_sizes:
  assumes ok: "fst (PlanBricks env req) = None"
    and sv: "sv \<in> set (Subvols (snd (PlanBricks env req)))" and b: "b \<in> set (sv_Bricks sv)"
  shows "\<exists>x. minBrickSize \<le> x \<and> b_Size b = NormalizeSize env x"
proof -
  from ok have "PlanBricks env req = (None, snd (PlanBricks env req))"
    by (metis prod.collapse)
  then obtain vgs layout req1 plan where
    l: "getBricksLayout env req = (Inr layout, req1)"
    and p: "planSubvols (SubvolZonesOverlap req) (ProvisionerType req) layout (vgs, {}) = Inr plan"
    and r: "snd (PlanBricks env req) = req1\<lparr>Subvols := plan\<rparr>"
    by (rule PlanBricks_success)
  from planSubvols_frame [of b_Size, OF placeOn_Size p]
  have fr: "list_all2 (\<lambda>sv sv'. map b_Size (sv_Bricks sv') = map b_Size (sv_Bricks sv)) layout plan" .
  from sv r have "sv \<in> set plan" by simp
  then obtain i where i: "i < length plan" "plan ! i = sv" by (auto simp: in_set_conv_nth)
  have len: "length layout = length plan" by (rule list_all2_lengthD [OF fr])
  define sv0 where "sv0 = layout ! i"
  have sv0: "sv0 \<in> set layout" using i(1) len by (simp add: sv0_def)
  have m: "map b_Size (sv_Bricks sv) = map b_Size (sv_Bricks sv0)"
    using list_all2_nthD2 [OF fr i(1)] i(2) by (simp add: sv0_def)
  from b have "b_Size b \<in> set (map b_Size (sv_Bricks sv))" by simp
  with m obtain b0 where b0: "b0 \<in> set (sv_Bricks sv0)" "b_Size b0 = b_Size b" by auto
  from getBricksLayout_Inr [OF l sv0 b0(1)] obtain pl i j where
    "makeBrick env req1 pl i j = Inr b0" by blast
  from makeBrick_Inr(1,2) [OF this] b0(2) show ?thesis
    by (intro exI [of _ "BrickSize pl j"]) simp
qed

subsection \<open>The errors of each step\<close>

lemma handleReplicaSubvolReq_error:
  "fst (handleReplicaSubvolReq r) = Some e \<Longrightarrow> e = InvalidReplicaCount \<or> e = InvalidArbiterCount"
  by (auto simp: handleReplicaSubvolReq_def Let_def split: if_splits)

lemma handleDisperseSubvolReq_error:
  "fst (handleDisperseSubvolReq env r) = Some e \<Longrightarrow> e = RedundancyRequired \<or> e = InvalidRedundancyCount"
  by (auto simp: handleDisperseSubvolReq_def Let_def split: if_splits)

lemma checkMaxBrickSize_error:
  "fst (checkMaxBrickSize r) = Some e \<Longrightarrow>
     e = MaxBrickSizeBelowMinimum \<or>
     e = MaxBrickSizeAboveLoopLimit \<and> ProvisionerType r = ProvisionerTypeLoop"
  by (auto simp: checkMaxBrickSize_def split: if_splits)

lemma checkMaxBrickSize_MaxBrickSize:
  "MaxBrickSize (snd (checkMaxBrickSize r)) =
     (if fst (checkMaxBrickSize r) = None \<and> ProvisionerType r = ProvisionerTypeLoop \<and> MaxBrickSize r = 0
      then defaultMaxLoopBrickSize else MaxBrickSize r)"
  by (auto simp: checkMaxBrickSize_def minBrickSize_def MiB_def)

lemma checkMaxBrickSize_rejects:
  "0 < MaxBrickSize r \<and> MaxBrickSize r < minBrickSize \<or>
   ProvisionerType r = ProvisionerTypeLoop \<and> defaultMaxLoopBrickSize < MaxBrickSize r \<Longrightarrow>
   fst (checkMaxBrickSize r) \<noteq> None"
  by (auto simp: checkMaxBrickSize_def)

lemma decideDistributeCount_error:
  "fst (decideDistributeCount r) = Some e \<Longrightarrow> e = DivideByZeroPanic"
  by (auto simp: decideDistributeCount_def Let_def split: if_splits)

text \<open>
  What the resolver does to the max brick size, and which errors it has: those of the
  four steps, the bounds being checked on the max brick size of the request.
\<close>

lemma resolveRequest_bounds:
  shows "fst (resolveRequest env req) = Some e \<Longrightarrow>
           kind_of e = ValidationError \<or> e = DivideByZeroPanic"
    and "fst (resolveRequest env req) = Some MaxBrickSizeAboveLoopLimit \<Longrightarrow>
           ProvisionerType req = ProvisionerTypeLoop"
    and "0 < MaxBrickSize req \<and> MaxBrickSize req < minBrickSize \<or>
         ProvisionerType req = ProvisionerTypeLoop \<and> defaultMaxLoopBrickSize < MaxBrickSize req \<Longrightarrow>
           \<exists>e'. fst (resolveRequest env req) = Some e' \<and> kind_of e' = ValidationError"
    and "ProvisionerType req \<noteq> ProvisionerTypeLoop \<Longrightarrow>
           MaxBrickSize (snd (resolveRequest env req)) = MaxBrickSize req"
    and "ProvisionerType req = ProvisionerTypeLoop \<Longrightarrow> MaxBrickSize req = 0 \<Longrightarrow>
           MaxBrickSize (snd (resolveRequest env req)) = defaultMaxLoopBrickSize \<or>
           (\<exists>e'. fst (resolveRequest env req) = Some e' \<and> kind_of e' = ValidationError)"
proof -
  let ?r0 = "req\<lparr>SubvolType := ''distribute''\<rparr>"
  let ?bad = "0 < MaxBrickSize req \<and> MaxBrickSize req < minBrickSize \<or>
         ProvisionerType req = ProvisionerTypeLoop \<and> defaultMaxLoopBrickSize < MaxBrickSize req"
  have "(fst (resolveRequest env req) = Some e \<longrightarrow>
           kind_of e = ValidationError \<or> e = DivideByZeroPanic) \<and>
        (fst (resolveRequest env req) = Some MaxBrickSizeAboveLoopLimit \<longrightarrow>
           ProvisionerType req = ProvisionerTypeLoop) \<and>
        (?bad \<longrightarrow> (\<exists>e'. fst (resolveRequest env req) = Some e' \<and> kind_of e' = ValidationError)) \<and>
        (ProvisionerType req \<noteq> ProvisionerTypeLoop \<longrightarrow>
           MaxBrickSize (snd (resolveRequest env req)) = MaxBrickSize req) \<and>
        (ProvisionerType req = ProvisionerTypeLoop \<and> MaxBrickSize req = 0 \<longrightarrow>
           MaxBrickSize (snd (resolveRequest env req)) = defaultMaxLoopBrickSize \<or>
           (\<exists>e'. fst (resolveRequest env req) = Some e' \<and> kind_of e' = ValidationError))"
  proof (cases rule: resolveRequest_steps [of req env])
    case (replica e1)
    from handleReplicaSubvolReq_error [OF replica(1)] replica(2)
      handleReplicaSubvolReq_keeps [of ?r0]
    show ?thesis by auto
  next
    case (disperse r1 e1)
    from handleDisperseSubvolReq_error [OF disperse(2)] disperse(1,3)
      handleReplicaSubvolReq_keeps [of ?r0] handleDisperseSubvolReq_keeps [of env r1]
    show ?thesis by auto
  next
    case (bounds r1 r2 e1)
    have k: "MaxBrickSize r2 = MaxBrickSize req" "ProvisionerType r2 = ProvisionerType req"
      using bounds(1,2) handleReplicaSubvolReq_keeps [of ?r0] handleDisperseSubvolReq_keeps [of env r1]
      by simp_all
    from checkMaxBrickSize_error [OF bounds(3)] bounds(3,4) k
      checkMaxBrickSize_MaxBrickSize [of r2]
    show ?thesis by auto
  next
    case (count r1 r2 r3)
    have k: "MaxBrickSize r2 = MaxBrickSize req" "ProvisionerType r2 = ProvisionerType req"
      using count(1,2) handleReplicaSubvolReq_keeps [of ?r0] handleDisperseSubvolReq_keeps [of env r1]
      by simp_all
    have nb: "\<not> ?bad" using checkMaxBrickSize_rejects [of r2] count(3) k by auto
    have m3: "MaxBrickSize r3 =
        (if ProvisionerType req = ProvisionerTypeLoop \<and> MaxBrickSize req = 0
         then defaultMaxLoopBrickSize else MaxBrickSize req)"
      using checkMaxBrickSize_MaxBrickSize [of r2] count(3) k by simp
    have e3: "fst (decideDistributeCount r3) = Some e \<longrightarrow> e = DivideByZeroPanic"
      "fst (decideDistributeCount r3) \<noteq> Some MaxBrickSizeAboveLoopLimit"
      using decideDistributeCount_error [of r3] by auto
    from nb m3 e3 count(4) decideDistributeCount_keeps(4) [of r3] show ?thesis by auto
  qed
  then show "fst (resolveRequest env req) = Some e \<Longrightarrow>
           kind_of e = ValidationError \<or> e = DivideByZeroPanic"
    and "fst (resolveRequest env req) = Some MaxBrickSizeAboveLoopLimit \<Longrightarrow>
           ProvisionerType req = ProvisionerTypeLoop"
    and "?bad \<Longrightarrow> \<exists>e'. fst (resolveRequest env req) = Some e' \<and> kind_of e' = ValidationError"
    and "ProvisionerType req \<noteq> ProvisionerTypeLoop \<Longrightarrow>
           MaxBrickSize (snd (resolveRequest env req)) = MaxBrickSize req"
    and "ProvisionerType req = ProvisionerTypeLoop \<Longrightarrow> MaxBrickSize req = 0 \<Longrightarrow>
           MaxBrickSize (snd (resolveRequest env req)) = defaultMaxLoopBrickSize \<or>
           (\<exists>e'. fst (resolveRequest env req) = Some e' \<and> kind_of e' = ValidationError)"
    by blast+
qed

lemma getBricksLayout_fst:
  "fst (getBricksLayout env req) = Inl e \<longleftrightarrow>
     fst (resolveRequest env req) = Some e \<or>
     fst (resolveRequest env req) = None \<and>
       (case subvolPlanners env (SubvolType (snd (resolveRequest env req))) of
          None \<Rightarrow> e = SubvolTypeNotSupported
        | Some init \<Rightarrow>
            collect (makeSubvol env (snd (resolveRequest env req))
                       (init (snd (resolveRequest env req)) (subvolSize (snd (resolveRequest env req)))))
              [0 ..< nat (sint (numSubvols (snd (resolveRequest env req))))] = Inl e)"
  by (cases "resolveRequest env req")
     (auto simp: getBricksLayout_def split: option.splits)

lemma getBricksLayout_error:
  assumes "fst (getBricksLayout env req) = Inl e"
  shows "fst (resolveRequest env req) = Some e \<or> e = SubvolTypeNotSupported \<or> e = BrickSizeTooSmall"
proof -
  from assms [unfolded getBricksLayout_fst] show ?thesis
    by (auto split: option.splits
        dest!: collect_only_error [rotated, where e = BrickSizeTooSmall] dest: makeSubvol_error)
qed

lemma uniformLayout_strategy:
  assumes "\<And>init r sz j. subvolPlanners env (SubvolType r) = Some init \<Longrightarrow>
             BrickSize (init r sz) j = BrickSize (init r sz) 0"
  shows "uniformLayout env req"
proof (cases "fst (getBricksLayout env req)")
  case (Inl e)
  then show ?thesis by (simp add: uniformLayout_def)
next
  case (Inr layout)
  obtain o1 r where rr: "resolveRequest env req = (o1, r)" by (cases "resolveRequest env req")
  with Inr obtain init where i: "subvolPlanners env (SubvolType r) = Some init"
    and c: "collect (makeSubvol env r (init r (subvolSize r))) [0 ..< nat (sint (numSubvols r))] = Inr layout"
    by (auto simp: getBricksLayout_def split: option.splits)
  let ?pl = "init r (subvolSize r)"
  have "uniformBricks (sv_Bricks sv)" if "sv \<in> set layout" for sv
  proof -
    from collect_Inr [OF c] that obtain k where "makeSubvol env r ?pl k = Inr sv"
      by (auto simp: list_all2_conv_all_nth in_set_conv_nth)
    then obtain bs where cb: "collect (makeBrick env r ?pl k) [0 ..< nat (sint (BricksCount ?pl))] = Inr bs"
      and sv: "sv_Bricks sv = bs"
      by (auto simp: makeSubvol_def split: sum.splits)
    have "b_TotalSize b =
            NormalizeSize env (scaleByFactor env (BrickSize ?pl 0) (SnapshotReserveFactor r)) +
            GetPoolMetadataSize env (scaleByFactor env (BrickSize ?pl 0) (SnapshotReserveFactor r))"
      if "b \<in> set bs" for b
    proof -
      from collect_Inr [OF cb] that obtain j where "makeBrick env r ?pl k j = Inr b"
        by (auto simp: list_all2_conv_all_nth in_set_conv_nth)
      note ts = makeBrick_Inr(4) [OF this]
      have "BrickSize ?pl j = BrickSize ?pl 0" by (rule assms [OF i])
      with ts show ?thesis by simp
    qed
    then show ?thesis by (simp add: uniformBricks_def sv)
  qed
  with Inr show ?thesis by (simp add: uniformLayout_def list_all_iff)
qed

subsection \<open>Arithmetic in 64 bits\<close>

lemma sint_double:
  fixes w :: "64 word"
  assumes "- (2 ^ 62) \<le> sint w" "sint w < 2 ^ 62"
  shows "sint (2 * w) = 2 * sint w"
proof -
  have "sint (2 * w) = signed_take_bit 63 (sint (2 :: 64 word) * sint w)"
    by (simp add: sint_word_ariths)
  also have "\<dots> = signed_take_bit 63 (2 * sint w)" by simp
  also have "\<dots> = 2 * sint w"
    using assms by (intro signed_take_bit_int_eq_self) auto
  finally show ?thesis .
qed

lemma sint_ge64: fixes w :: "64 word" shows "- (2 ^ 63) \<le> sint w"
  using sint_ge [of w] by simp

lemma sint_lt64: fixes w :: "64 word" shows "sint w < 2 ^ 63"
  using sint_lt [of w] by simp

lemma ceil_div_int:
  fixes s c :: int
  assumes "0 < c"
  shows "(s + c - 1) div c = s div c + (if s mod c = 0 then 0 else 1)"
proof -
  define q where "q = s div c"
  define r where "r = s mod c"
  have s: "s = r + c * q" by (simp add: q_def r_def)
  have r: "0 \<le> r" "r < c" using assms by (simp_all add: r_def)
  have c0: "c \<noteq> 0" using assms by simp
  show ?thesis
  proof (cases "r = 0")
    case True
    have "(s + c - 1) div c = ((c - 1) + c * q) div c" using s True by (simp add: algebra_simps)
    also have "\<dots> = q + (c - 1) div c" by (rule div_mult_self2 [OF c0])
    also have "(c - 1) div c = 0" using assms by simp
    finally show ?thesis using True by (simp add: q_def r_def)
  next
    case False
    have "(s + c - 1) div c = ((r - 1) + c * (q + 1)) div c" using s by (simp add: algebra_simps)
    also have "\<dots> = (q + 1) + (r - 1) div c" by (rule div_mult_self2 [OF c0])
    also have "(r - 1) div c = 0" using r False by simp
    finally show ?thesis using False by (simp add: q_def r_def)
  qed
qed

lemma sint_small:
  fixes w :: "64 word"
  assumes "uint w < 2 ^ 63"
  shows "sint w = uint w"
proof -
  have "- (2 ^ 63) \<le> (0::int)" by simp
  also have "0 \<le> uint w" by simp
  finally have lo: "- (2 ^ 63) \<le> uint w" .
  have "sint w = signed_take_bit 63 (uint w)" by (simp add: sint_uint)
  also have "\<dots> = uint w" using lo assms by (rule signed_take_bit_int_eq_self)
  finally show ?thesis .
qed

text \<open>
  Lines 107 to 132 where no product or count leaves its 64 bits: the distribute count
  is the rounded-up quotient, and the subvolume size is the rounded-down one.
\<close>

lemma decideDistributeCount_in_range:
  assumes min: "minBrickSize \<le> MaxBrickSize req" and big: "MaxBrickSize req < Size req"
    and cap: "cap = (if 0 < sint (DisperseDataCount req)
                     then uint (MaxBrickSize req) * uint (DisperseDataCount req)
                     else uint (MaxBrickSize req))"
    and fits: "cap < 2 ^ 64"
  shows "fst (decideDistributeCount req) = None"
    and "sint (DistributeCount (snd (decideDistributeCount req))) =
           (uint (Size req) + cap - 1) div cap"
    and "numSubvols (snd (decideDistributeCount req)) =
           DistributeCount (snd (decideDistributeCount req))"
    and "uint (subvolSize (snd (decideDistributeCount req))) =
           uint (Size req) div ((uint (Size req) + cap - 1) div cap)"
proof -
  define M where "M = MaxBrickSize req"
  define S where "S = Size req"
  define D where "D = DisperseDataCount req"
  define m where "m = (if 0 < sint D then M * D else M)"
  have M20: "20971520 \<le> uint M"
    using min by (simp add: M_def minBrickSize_def MiB_def word_le_def)
  have Mpos: "0 < M" using M20 by (simp add: word_less_def)
  have capM: "uint M \<le> cap"
  proof (cases "0 < sint D")
    case True
    then have "D \<noteq> 0" by auto
    then have "uint D \<noteq> 0" by (simp add: uint_0_iff)
    moreover have "0 \<le> uint D" by simp
    ultimately have "1 \<le> uint D" by linarith
    moreover have "0 \<le> uint M" by simp
    ultimately have "uint M * 1 \<le> uint M * uint D" by (rule mult_left_mono)
    with True show ?thesis by (simp add: cap M_def D_def)
  next
    case False
    then show ?thesis by (simp add: cap M_def D_def)
  qed
  have um: "uint m = cap"
  proof (cases "0 < sint D")
    case True
    then have "uint (M * D) = uint M * uint D"
      using fits by (simp add: cap M_def D_def uint_mult_lem [THEN iffD1])
    with True show ?thesis by (simp add: m_def cap M_def D_def)
  next
    case False
    then show ?thesis by (simp add: m_def cap M_def D_def)
  qed
  have cap20: "20971520 \<le> cap" using M20 capM by simp
  have cpos: "0 < cap" using cap20 by simp
  have m0: "m \<noteq> 0" using um cap20 by (auto simp: uint_0_iff [symmetric])
  define q where "q = S div m"
  define c where "c = (if 0 < S mod m then q + 1 else q)"
  have uq: "uint q = uint S div cap" by (simp add: q_def uint_div um)
  have ur: "uint (S mod m) = uint S mod cap" by (simp add: uint_mod um)
  have "0 \<le> uint S mod cap" using cpos by simp
  then have r0: "0 < S mod m \<longleftrightarrow> uint S mod cap \<noteq> 0"
    using ur by (simp add: word_less_def order_less_le)
  have S0: "0 \<le> uint S" by simp
  have Slt: "uint S < 2 ^ 64" using uint_lt2p [of S] by simp
  have "uint S div cap \<le> uint S div 20971520"
    using cap20 S0 by (intro zdiv_mono2) simp_all
  also have "\<dots> < 2 ^ 40" using Slt by simp
  finally have qlt: "uint q < 2 ^ 40" by (simp add: uq)
  have "uint q + uint (1 :: 64 word) < 2 ^ LENGTH(64)" using qlt by simp
  then have uq1: "uint (q + 1) = uint q + 1"
    by (simp add: uint_add_lem [THEN iffD1])
  have uc: "uint c = (uint S + cap - 1) div cap"
    using cpos by (simp add: c_def r0 uq1 uq ceil_div_int)
  have clt: "uint c < 2 ^ 63"
  proof -
    have "uint c \<le> uint q + 1" by (simp add: c_def uq1)
    with qlt show ?thesis by simp
  qed
  have sc: "sint c = uint c" by (rule sint_small [OF clt])
  have Spos: "0 < uint S" using big Mpos by (simp add: S_def M_def word_less_def)
  have c1: "1 \<le> uint c"
  proof (cases "uint S mod cap = 0")
    case True
    have "cap \<le> uint S"
    proof (rule ccontr)
      assume "\<not> cap \<le> uint S"
      then have "uint S mod cap = uint S" using S0 by simp
      with True Spos show False by simp
    qed
    then have "0 < uint S div cap" using cpos by (simp add: pos_imp_zdiv_pos_iff)
    then have "1 \<le> uint S div cap" by linarith
    with True show ?thesis by (simp add: c_def r0 uq)
  next
    case False
    have "0 \<le> uint q" by simp
    with False show ?thesis by (simp add: c_def r0 uq1)
  qed
  have m0': "(if 0 < sint (DisperseDataCount req)
              then MaxBrickSize req * DisperseDataCount req else MaxBrickSize req) \<noteq> 0"
    using m0 unfolding m_def M_def D_def .
  have c': "c = (if 0 < Size req mod (if 0 < sint (DisperseDataCount req)
                   then MaxBrickSize req * DisperseDataCount req else MaxBrickSize req)
                 then Size req div (if 0 < sint (DisperseDataCount req)
                   then MaxBrickSize req * DisperseDataCount req else MaxBrickSize req) + 1
                 else Size req div (if 0 < sint (DisperseDataCount req)
                   then MaxBrickSize req * DisperseDataCount req else MaxBrickSize req))"
    unfolding c_def q_def m_def M_def S_def D_def ..
  have Mpos': "0 < MaxBrickSize req" using Mpos by (simp add: M_def)
  have res: "decideDistributeCount req = (None, req\<lparr>DistributeCount := c\<rparr>)"
    unfolding decideDistributeCount_def Let_def c'
    using Mpos' big m0' by (simp only: simp_thms if_True if_False VolCreateReq.simps split: if_split) simp
  show "fst (decideDistributeCount req) = None" by (simp add: res)
  show "sint (DistributeCount (snd (decideDistributeCount req))) =
           (uint (Size req) + cap - 1) div cap"
    by (simp add: res sc uc S_def)
  have ns: "numSubvols (req\<lparr>DistributeCount := c\<rparr>) = c"
    using c1 sc by (simp add: numSubvols_def)
  then show "numSubvols (snd (decideDistributeCount req)) =
           DistributeCount (snd (decideDistributeCount req))"
    by (simp add: res)
  have "uint (subvolSize (req\<lparr>DistributeCount := c\<rparr>)) = uint S div uint c"
  proof (cases "1 < sint c")
    case True
    then show ?thesis by (simp add: subvolSize_def ns uint_div S_def)
  next
    case False
    with c1 sc have "uint c = 1" by simp
    with False show ?thesis by (simp add: subvolSize_def ns S_def)
  qed
  then show "uint (subvolSize (snd (decideDistributeCount req))) =
           uint (Size req) div ((uint (Size req) + cap - 1) div cap)"
    by (simp add: res uc S_def)
qed

text \<open>
  The disperse rule where twice the redundancy count stays in 64 bits: a call that
  returns nil has resolved counts with twice the redundancy below the disperse count.
\<close>

lemma disperse_rule_in_range:
  assumes ok: "handleDisperseSubvolReq env req = (None, req')"
    and trig: "\<not> (DisperseCount req = 0 \<and> DisperseDataCount req = 0 \<and> DisperseRedundancyCount req = 0)"
    and small: "sint (DisperseRedundancyCount req') < 2 ^ 62"
  shows "2 * sint (DisperseRedundancyCount req') < sint (DisperseCount req')"
proof -
  from ok trig have chk: "\<not> sint (DisperseCount req') \<le> sint (2 * DisperseRedundancyCount req')"
    by (auto simp: handleDisperseSubvolReq_def Let_def split: if_splits)
  show ?thesis
  proof (cases "- (2 ^ 62) \<le> sint (DisperseRedundancyCount req')")
    case True
    with small chk show ?thesis by (simp add: sint_double)
  next
    case False
    then have "2 * sint (DisperseRedundancyCount req') < - (2 ^ 63)" by simp
    with sint_ge64 [of "DisperseCount req'"] show ?thesis by linarith
  qed
qed

text \<open>The sample \<open>NormalizeSize\<close> keeps a size of at least 20 MiB at least 20 MiB.\<close>

lemma sample_NormalizeSize:
  fixes x :: "64 word"
  assumes "minBrickSize \<le> x"
  shows "minBrickSize \<le> x - x mod 512"
proof -
  have "uint (x mod 512) \<le> uint x" by (simp add: uint_mod zmod_le_nonneg_dividend)
  then have le: "x mod 512 \<le> x" by (simp add: word_le_def)
  have "uint (x - x mod 512) = uint x - uint (x mod 512)"
    using le by (simp add: uint_sub_lem [THEN iffD1] word_le_def)
  also have "\<dots> = uint x - uint x mod 512" by (simp add: uint_mod)
  also have "\<dots> = 512 * (uint x div 512)" by (simp add: minus_mod_eq_mult_div)
  finally have u: "uint (x - x mod 512) = 512 * (uint x div 512)" .
  have "20971520 \<le> uint x" using assms by (simp add: minBrickSize_def MiB_def word_le_def)
  then have "20971520 div 512 \<le> uint x div 512" by (rule zdiv_mono1) simp
  then have "20971520 \<le> 512 * (uint x div 512)" by simp
  with u show ?thesis by (simp add: minBrickSize_def MiB_def word_le_def)
qed

section \<open>The claims\<close>



text \<open>
  The second pass starts at index \<^verbatim>\<open>numBricksAllocated\<close>. That is the first unplaced
  brick when the first pass placed a prefix of the bricks, which it does when they
  have one size. With an arbiter brick smaller than the others, the first pass can
  place the last brick only; the second pass then starts at the second brick, places
  it, places the last brick once more, and the count reaches the number of bricks
  with the first brick unplaced.
\<close>

lemma unequal_sizes_skip_a_brick:
  "fst (PlanBricks ((sampleEnv usedVgs)\<lparr>subvolPlanners := arbiterPlanners\<rparr>) arbiterReq) = None \<and>
   map (\<lambda>sv. map b_PeerID (sv_Bricks sv))
     (Subvols (snd (PlanBricks ((sampleEnv usedVgs)\<lparr>subvolPlanners := arbiterPlanners\<rparr>) arbiterReq))) =
     [[[], ''p1'', ''p2'']] \<and>
   \<not> uniformLayout ((sampleEnv usedVgs)\<lparr>subvolPlanners := arbiterPlanners\<rparr>) arbiterReq"
  by code_simp

text \<open>
  Claim C2, as amended. \<^verbatim>\<open>handleReplicaSubvolReq\<close> leaves the request as it is when the
  replica count is below 2, whatever the arbiter count; with a replica count of 2 or 3
  it sets the subvolume type to replicate and then fails exactly when the arbiter count
  is above 1; with a replica count above 3 it fails and leaves the type alone. Its
  errors are validation errors.
\<close>

theorem replica_rule:
  "(sint (ReplicaCount req) < 2 \<longrightarrow> handleReplicaSubvolReq req = (None, req)) \<and>
   (sint (ReplicaCount req) \<in> {2, 3} \<longrightarrow>
      SubvolType (snd (handleReplicaSubvolReq req)) = ''replicate'' \<and>
      fst (handleReplicaSubvolReq req) =
        (if 1 < sint (ArbiterCount req) then Some InvalidArbiterCount else None)) \<and>
   (3 < sint (ReplicaCount req) \<longrightarrow>
      handleReplicaSubvolReq req = (Some InvalidReplicaCount, req)) \<and>
   (\<forall>e. fst (handleReplicaSubvolReq req) = Some e \<longrightarrow> kind_of e = ValidationError)"
  by (auto simp: handleReplicaSubvolReq_def Let_def)

theorem replica_rule_witness:
  "handleReplicaSubvolReq (sampleReq\<lparr>ReplicaCount := 1\<rparr>) = (None, sampleReq\<lparr>ReplicaCount := 1\<rparr>) \<and>
   SubvolType (snd (handleReplicaSubvolReq (sampleReq\<lparr>ReplicaCount := 3, ArbiterCount := 2\<rparr>))) =
     ''replicate'' \<and>
   fst (handleReplicaSubvolReq (sampleReq\<lparr>ReplicaCount := 3, ArbiterCount := 2\<rparr>)) =
     Some InvalidArbiterCount \<and>
   fst (handleReplicaSubvolReq (sampleReq\<lparr>ReplicaCount := 2, ArbiterCount := 1\<rparr>)) = None \<and>
   handleReplicaSubvolReq (sampleReq\<lparr>ReplicaCount := 4\<rparr>) =
     (Some InvalidReplicaCount, sampleReq\<lparr>ReplicaCount := 4\<rparr>)"
  using replica_rule [of "sampleReq\<lparr>ReplicaCount := 1\<rparr>"]
        replica_rule [of "sampleReq\<lparr>ReplicaCount := 3, ArbiterCount := 2\<rparr>"]
        replica_rule [of "sampleReq\<lparr>ReplicaCount := 2, ArbiterCount := 1\<rparr>"]
        replica_rule [of "sampleReq\<lparr>ReplicaCount := 4\<rparr>"]
  by (simp add: sampleReq_def)

text \<open>
  The claim as it was stated has an arbiter count above 1 fail for every replica
  count. With no replicas asked for and an arbiter count of 2, the handler returns
  nil, and so does the whole resolver.
\<close>

theorem replica_rule_counterexample:
  "1 < sint (ArbiterCount (sampleReq\<lparr>ArbiterCount := 2\<rparr>)) \<and>
   handleReplicaSubvolReq (sampleReq\<lparr>ArbiterCount := 2\<rparr>) = (None, sampleReq\<lparr>ArbiterCount := 2\<rparr>) \<and>
   fst (resolveRequest (sampleEnv sampleVgs) (sampleReq\<lparr>ArbiterCount := 2\<rparr>)) = None"
  by code_simp

text \<open>
  Claim C3. In a plan that \<^verbatim>\<open>PlanBricks\<close> returns for a request whose zone-overlap flag
  is not set, the bricks of one subvolume sit on devices of pairwise distinct zones:
  each placed brick has a host in the inventory, and the zones of the hosts of one
  subvolume are all different.
\<close>

theorem zones_apart_unless_overlap:
  assumes "fst (PlanBricks env req) = None" and "GetAvailableVgs env req = Inr vgs"
    and "\<not> SubvolZonesOverlap req"
  shows "\<forall>sv \<in> set (Subvols (snd (PlanBricks env req))).
           zonesApart vgs (ProvisionerType req) (sv_Bricks sv)"
  using assms(1,2) by (rule PlanBricks_zones(1))

theorem zones_apart_unless_overlap_witness:
  "fst (PlanBricks (sampleEnv sampleVgs) replica3Req) = None \<and>
   Subvols (snd (PlanBricks (sampleEnv sampleVgs) replica3Req)) \<noteq> [] \<and>
   list_all (\<lambda>sv. zonesApart sampleVgs ''lvm'' (sv_Bricks sv))
     (Subvols (snd (PlanBricks (sampleEnv sampleVgs) replica3Req)))"
proof -
  have inv: "GetAvailableVgs (sampleEnv sampleVgs) replica3Req = Inr sampleVgs"
    by (simp add: sampleEnv_def)
  have ok: "fst (PlanBricks (sampleEnv sampleVgs) replica3Req) = None" by code_simp
  have ne: "Subvols (snd (PlanBricks (sampleEnv sampleVgs) replica3Req)) \<noteq> []" by code_simp
  have no: "\<not> SubvolZonesOverlap replica3Req" by code_simp
  have prov: "ProvisionerType replica3Req = ''lvm''" by code_simp
  from zones_apart_unless_overlap [OF ok inv no] ok ne prov
  show ?thesis by (simp add: list_all_iff)
qed

text \<open>
  Claim C4 says that a request that triggers the disperse rule either fails or ends
  with twice the redundancy count below the disperse count. The test of the source
  multiplies in 64 bits: where the product stays in range the claim holds
  (\<open>disperse_rule_in_range\<close>), but with a data count of 1 and a redundancy count of
  \<open>2 ^ 62\<close> the product wraps around to a negative number, the handler returns nil, and
  the resolved counts are \<open>2 ^ 62\<close> and \<open>2 ^ 62 + 1\<close>.
\<close>

theorem disperse_rule_overflow:
  "fst (handleDisperseSubvolReq (sampleEnv [])
          (sampleReq\<lparr>DisperseDataCount := 1, DisperseRedundancyCount := 2 ^ 62\<rparr>)) = None \<and>
   sint (DisperseRedundancyCount (snd (handleDisperseSubvolReq (sampleEnv [])
          (sampleReq\<lparr>DisperseDataCount := 1, DisperseRedundancyCount := 2 ^ 62\<rparr>)))) = 2 ^ 62 \<and>
   sint (DisperseCount (snd (handleDisperseSubvolReq (sampleEnv [])
          (sampleReq\<lparr>DisperseDataCount := 1, DisperseRedundancyCount := 2 ^ 62\<rparr>)))) = 2 ^ 62 + 1 \<and>
   \<not> 2 * sint (DisperseRedundancyCount (snd (handleDisperseSubvolReq (sampleEnv [])
          (sampleReq\<lparr>DisperseDataCount := 1, DisperseRedundancyCount := 2 ^ 62\<rparr>))))
       < sint (DisperseCount (snd (handleDisperseSubvolReq (sampleEnv [])
          (sampleReq\<lparr>DisperseDataCount := 1, DisperseRedundancyCount := 2 ^ 62\<rparr>)))) \<and>
   fst (resolveRequest (sampleEnv [])
          (sampleReq\<lparr>DisperseDataCount := 1, DisperseRedundancyCount := 2 ^ 62\<rparr>)) = None"
  by (simp add: handleDisperseSubvolReq_def handleReplicaSubvolReq_def checkMaxBrickSize_def
      decideDistributeCount_def resolveRequest_def sampleReq_def Let_def GiB_def)

text \<open>
  Claim C5 gives the distribute count as the requested size over the capacity of a
  subvolume, rounded up, the capacity of a disperse subvolume being the max brick
  size times the data count. Where that product stays in 64 bits the source computes
  this, and the number of subvolumes and their size as the claim has them
  (\<open>decideDistributeCount_in_range\<close>). The product is not checked, though: a max brick
  size of \<open>2 ^ 40\<close> (1 TiB) with a data count of \<open>2 ^ 24\<close> gives the capacity 0, and for a
  size of 2 TiB the division panics; a max brick size of \<open>2 ^ 61\<close> with a data count of 9
  gives the capacity \<open>2 ^ 61\<close>, and a size of \<open>2 ^ 62\<close> then gets the distribute count 2,
  where the rounded-up quotient is 1.
\<close>

theorem distribute_count_overflow:
  "fst (getBricksLayout (sampleEnv [])
     (sampleReq\<lparr>Size := 2 ^ 41, MaxBrickSize := 2 ^ 40,
                DisperseDataCount := 2 ^ 24, DisperseRedundancyCount := 1\<rparr>)) = Inl DivideByZeroPanic \<and>
   fst (resolveRequest (sampleEnv [])
     (sampleReq\<lparr>Size := 2 ^ 62, MaxBrickSize := 2 ^ 61,
                DisperseDataCount := 9, DisperseRedundancyCount := 1\<rparr>)) = None \<and>
   DistributeCount (snd (resolveRequest (sampleEnv [])
     (sampleReq\<lparr>Size := 2 ^ 62, MaxBrickSize := 2 ^ 61,
                DisperseDataCount := 9, DisperseRedundancyCount := 1\<rparr>))) = 2 \<and>
   (2 ^ 62 + 9 * 2 ^ 61 - 1) div (9 * 2 ^ 61) = (1 :: int)"
  by code_simp

text \<open>
  Claim C6. Once the request is resolved and its strategy found, a brick index whose
  size is below 20 MiB makes \<^verbatim>\<open>getBricksLayout\<close>, and so \<^verbatim>\<open>PlanBricks\<close>, fail with the size
  error. In a plan that \<^verbatim>\<open>PlanBricks\<close> returns every brick has a nominal size of at least
  20 MiB, granted that \<^verbatim>\<open>NormalizeSize\<close>, which the nominal size goes through, does not
  take a size from 20 MiB or above to below 20 MiB.
\<close>

theorem brick_size_minimum:
  "(resolveRequest env req = (None, r) \<and> subvolPlanners env (SubvolType r) = Some init \<and>
    j < nat (sint (BricksCount (init r (subvolSize r)))) \<and>
    BrickSize (init r (subvolSize r)) j < minBrickSize \<longrightarrow>
      getBricksLayout env req = (Inl BrickSizeTooSmall, r) \<and>
      fst (PlanBricks env req) \<noteq> None) \<and>
   kind_of BrickSizeTooSmall = SizeError \<and>
   (fst (PlanBricks env req) = None \<and>
    (\<forall>x. minBrickSize \<le> x \<longrightarrow> minBrickSize \<le> NormalizeSize env x) \<longrightarrow>
      (\<forall>sv \<in> set (Subvols (snd (PlanBricks env req))). \<forall>b \<in> set (sv_Bricks sv).
         minBrickSize \<le> b_Size b)) \<and>
   unat minBrickSize = 20 * 2 ^ 20"
proof (intro conjI impI ballI)
  assume a: "resolveRequest env req = (None, r) \<and> subvolPlanners env (SubvolType r) = Some init \<and>
    j < nat (sint (BricksCount (init r (subvolSize r)))) \<and>
    BrickSize (init r (subvolSize r)) j < minBrickSize"
  then show l: "getBricksLayout env req = (Inl BrickSizeTooSmall, r)"
    by (intro getBricksLayout_small [of env req r init j]) simp_all
  show "fst (PlanBricks env req) \<noteq> None"
    by (rule PlanBricks_layout_fails [OF l])
next
  show "kind_of BrickSizeTooSmall = SizeError" by simp
next
  fix sv b
  assume a: "fst (PlanBricks env req) = None \<and>
    (\<forall>x. minBrickSize \<le> x \<longrightarrow> minBrickSize \<le> NormalizeSize env x)"
    and "sv \<in> set (Subvols (snd (PlanBricks env req)))" "b \<in> set (sv_Bricks sv)"
  then obtain x where "minBrickSize \<le> x" "b_Size b = NormalizeSize env x"
    using PlanBricks_sizes [of env req sv b] by blast
  with a show "minBrickSize \<le> b_Size b" by simp
next
  show "unat minBrickSize = 20 * 2 ^ 20" by (simp add: minBrickSize_def MiB_def)
qed

theorem brick_size_minimum_witness:
  "getBricksLayout (sampleEnv sampleVgs) (sampleReq\<lparr>Size := 10 * MiB\<rparr>) =
     (Inl BrickSizeTooSmall, snd (resolveRequest (sampleEnv sampleVgs) (sampleReq\<lparr>Size := 10 * MiB\<rparr>))) \<and>
   fst (PlanBricks (sampleEnv sampleVgs) (sampleReq\<lparr>Size := 10 * MiB\<rparr>)) \<noteq> None \<and>
   fst (PlanBricks (sampleEnv sampleVgs) replica3Req) = None \<and>
   Subvols (snd (PlanBricks (sampleEnv sampleVgs) replica3Req)) \<noteq> [] \<and>
   list_all (\<lambda>sv. list_all (\<lambda>b. minBrickSize \<le> b_Size b) (sv_Bricks sv))
     (Subvols (snd (PlanBricks (sampleEnv sampleVgs) replica3Req)))"
proof -
  let ?E = "sampleEnv sampleVgs"
  let ?R = "sampleReq\<lparr>Size := 10 * MiB\<rparr>"
  let ?r = "snd (resolveRequest ?E ?R)"
  let ?init = "\<lambda>req sz. \<lparr>BricksCount = 1, BrickSize = (\<lambda>j. sz), BrickType = (\<lambda>j. ''brick'')\<rparr>"
  have res: "fst (resolveRequest ?E ?R) = None" by code_simp
  then have res': "resolveRequest ?E ?R = (None, ?r)" by (metis prod.collapse)
  have ty: "SubvolType ?r = ''distribute''" by code_simp
  have pl: "subvolPlanners ?E (SubvolType ?r) = Some ?init"
    unfolding ty by (simp add: sampleEnv_def samplePlanners_def)
  have j: "0 < nat (sint (BricksCount (?init ?r (subvolSize ?r))))" by simp
  have "subvolSize ?r < minBrickSize" by code_simp
  then have small: "BrickSize (?init ?r (subvolSize ?r)) 0 < minBrickSize" by simp
  have norm: "\<forall>x. minBrickSize \<le> x \<longrightarrow> minBrickSize \<le> NormalizeSize ?E x"
    by (simp add: sampleEnv_def sample_NormalizeSize)
  have ok: "fst (PlanBricks ?E replica3Req) = None" by code_simp
  have ne: "Subvols (snd (PlanBricks ?E replica3Req)) \<noteq> []" by code_simp
  from brick_size_minimum [of ?E ?R ?r ?init 0] res' pl j small
    brick_size_minimum [of ?E replica3Req ?r ?init 0] norm ok ne
  show ?thesis by (simp add: list_all_iff)
qed



text \<open>
  Claim C8. A max brick size that is set and below 20 MiB fails validation. With the
  loop-back provisioner a max brick size above 100 GiB fails validation, and one that
  is not set becomes 100 GiB at the bounds check, so the request leaves
  \<^verbatim>\<open>getBricksLayout\<close> with 100 GiB unless the call failed validation. With any other
  provisioner the max brick size is left as it is and the loop-back error is never
  returned.
\<close>

theorem max_brick_size_bounds:
  "(0 < MaxBrickSize req \<and> MaxBrickSize req < minBrickSize \<longrightarrow>
      (\<exists>e. fst (getBricksLayout env req) = Inl e \<and> kind_of e = ValidationError)) \<and>
   (ProvisionerType req = ProvisionerTypeLoop \<and> defaultMaxLoopBrickSize < MaxBrickSize req \<longrightarrow>
      (\<exists>e. fst (getBricksLayout env req) = Inl e \<and> kind_of e = ValidationError)) \<and>
   (ProvisionerType req = ProvisionerTypeLoop \<and> MaxBrickSize req = 0 \<longrightarrow>
      checkMaxBrickSize req = (None, req\<lparr>MaxBrickSize := defaultMaxLoopBrickSize\<rparr>) \<and>
      (MaxBrickSize (snd (getBricksLayout env req)) = defaultMaxLoopBrickSize \<or>
       (\<exists>e. fst (getBricksLayout env req) = Inl e \<and> kind_of e = ValidationError))) \<and>
   (ProvisionerType req \<noteq> ProvisionerTypeLoop \<longrightarrow>
      MaxBrickSize (snd (getBricksLayout env req)) = MaxBrickSize req \<and>
      fst (getBricksLayout env req) \<noteq> Inl MaxBrickSizeAboveLoopLimit) \<and>
   unat minBrickSize = 20 * 2 ^ 20 \<and> unat defaultMaxLoopBrickSize = 100 * 2 ^ 30"
proof (intro conjI impI)
  assume "0 < MaxBrickSize req \<and> MaxBrickSize req < minBrickSize"
  then have "\<exists>e. fst (resolveRequest env req) = Some e \<and> kind_of e = ValidationError"
    by (intro resolveRequest_bounds(3)) simp
  then show "\<exists>e. fst (getBricksLayout env req) = Inl e \<and> kind_of e = ValidationError"
    by (auto simp: getBricksLayout_fst)
next
  assume "ProvisionerType req = ProvisionerTypeLoop \<and> defaultMaxLoopBrickSize < MaxBrickSize req"
  then have "\<exists>e. fst (resolveRequest env req) = Some e \<and> kind_of e = ValidationError"
    by (intro resolveRequest_bounds(3)) simp
  then show "\<exists>e. fst (getBricksLayout env req) = Inl e \<and> kind_of e = ValidationError"
    by (auto simp: getBricksLayout_fst)
next
  assume a: "ProvisionerType req = ProvisionerTypeLoop \<and> MaxBrickSize req = 0"
  then show "checkMaxBrickSize req = (None, req\<lparr>MaxBrickSize := defaultMaxLoopBrickSize\<rparr>)"
    by (simp add: checkMaxBrickSize_def defaultMaxLoopBrickSize_def GiB_def)
  from a resolveRequest_bounds(5) [of req env]
  show "MaxBrickSize (snd (getBricksLayout env req)) = defaultMaxLoopBrickSize \<or>
        (\<exists>e. fst (getBricksLayout env req) = Inl e \<and> kind_of e = ValidationError)"
    by (auto simp: getBricksLayout_snd getBricksLayout_fst)
next
  assume a: "ProvisionerType req \<noteq> ProvisionerTypeLoop"
  then show "MaxBrickSize (snd (getBricksLayout env req)) = MaxBrickSize req"
    by (simp add: getBricksLayout_snd resolveRequest_bounds(4))
  show "fst (getBricksLayout env req) \<noteq> Inl MaxBrickSizeAboveLoopLimit"
  proof
    assume "fst (getBricksLayout env req) = Inl MaxBrickSizeAboveLoopLimit"
    from getBricksLayout_error [OF this]
    have "fst (resolveRequest env req) = Some MaxBrickSizeAboveLoopLimit" by simp
    from resolveRequest_bounds(2) [OF this] a show False by simp
  qed
next
  show "unat minBrickSize = 20 * 2 ^ 20" by (simp add: minBrickSize_def MiB_def)
  show "unat defaultMaxLoopBrickSize = 100 * 2 ^ 30"
    by (simp add: defaultMaxLoopBrickSize_def GiB_def)
qed

theorem max_brick_size_bounds_witness:
  "fst (getBricksLayout (sampleEnv []) (sampleReq\<lparr>MaxBrickSize := MiB\<rparr>)) = Inl MaxBrickSizeBelowMinimum \<and>
   fst (getBricksLayout (sampleEnv [])
          (sampleReq\<lparr>ProvisionerType := ''loop'', MaxBrickSize := 200 * GiB\<rparr>)) =
     Inl MaxBrickSizeAboveLoopLimit \<and>
   MaxBrickSize (snd (getBricksLayout (sampleEnv []) (sampleReq\<lparr>ProvisionerType := ''loop''\<rparr>))) =
     defaultMaxLoopBrickSize \<and>
   MaxBrickSize (snd (getBricksLayout (sampleEnv []) (sampleReq\<lparr>MaxBrickSize := 200 * GiB\<rparr>))) =
     200 * GiB \<and>
   isl (fst (getBricksLayout (sampleEnv []) (sampleReq\<lparr>MaxBrickSize := 200 * GiB\<rparr>))) = False"
proof -
  let ?E = "sampleEnv []"
  let ?A = "sampleReq\<lparr>MaxBrickSize := MiB\<rparr>"
  let ?B = "sampleReq\<lparr>ProvisionerType := ''loop'', MaxBrickSize := 200 * GiB\<rparr>"
  let ?C = "sampleReq\<lparr>ProvisionerType := ''loop''\<rparr>"
  let ?D = "sampleReq\<lparr>MaxBrickSize := 200 * GiB\<rparr>"
  have a: "0 < MaxBrickSize ?A \<and> MaxBrickSize ?A < minBrickSize" by code_simp
  have a': "fst (getBricksLayout ?E ?A) = Inl MaxBrickSizeBelowMinimum" by code_simp
  have b: "ProvisionerType ?B = ProvisionerTypeLoop \<and> defaultMaxLoopBrickSize < MaxBrickSize ?B"
    by code_simp
  have b': "fst (getBricksLayout ?E ?B) = Inl MaxBrickSizeAboveLoopLimit" by code_simp
  have c: "ProvisionerType ?C = ProvisionerTypeLoop \<and> MaxBrickSize ?C = 0" by code_simp
  have c': "isl (fst (getBricksLayout ?E ?C)) = False" by code_simp
  have d: "ProvisionerType ?D \<noteq> ProvisionerTypeLoop" by code_simp
  have d': "MaxBrickSize ?D = 200 * GiB" by code_simp
  have d'': "isl (fst (getBricksLayout ?E ?D)) = False" by code_simp
  from max_brick_size_bounds [of ?A ?E] a a' max_brick_size_bounds [of ?B ?E] b b'
    max_brick_size_bounds [of ?C ?E] c c' max_brick_size_bounds [of ?D ?E] d d' d''
  show ?thesis by auto
qed

text \<open>
  Claim C9. The inventory is fetched and checked first: on an empty inventory
  \<^verbatim>\<open>PlanBricks\<close> returns the capacity error and leaves the request untouched, whatever
  the request is, also one that layout generation would reject.
\<close>

theorem empty_inventory_first:
  assumes "GetAvailableVgs env req = Inr []"
  shows "PlanBricks env req = (Some NoDevicesAvailable, req) \<and>
         kind_of NoDevicesAvailable = CapacityError"
  using assms by (simp add: PlanBricks_def)

theorem empty_inventory_first_witness:
  "PlanBricks (sampleEnv []) (sampleReq\<lparr>ReplicaCount := 5\<rparr>) =
     (Some NoDevicesAvailable, sampleReq\<lparr>ReplicaCount := 5\<rparr>) \<and>
   fst (getBricksLayout (sampleEnv []) (sampleReq\<lparr>ReplicaCount := 5\<rparr>)) = Inl InvalidReplicaCount"
proof -
  have inv: "GetAvailableVgs (sampleEnv []) (sampleReq\<lparr>ReplicaCount := 5\<rparr>) = Inr []"
    by (simp add: sampleEnv_def)
  have "fst (getBricksLayout (sampleEnv []) (sampleReq\<lparr>ReplicaCount := 5\<rparr>)) = Inl InvalidReplicaCount"
    by code_simp
  with empty_inventory_first [OF inv] show ?thesis by simp
qed

text \<open>
  Claim C10. In every plan that \<^verbatim>\<open>PlanBricks\<close> returns, the bricks of one subvolume sit
  in pairwise distinct zones, whatever the zone-overlap flag. With the flag not set
  the zones map lives through the whole call, so the bricks of all subvolumes together
  sit in pairwise distinct zones. With the flag set, the body of the loop takes no
  notice of the zones map it is handed: it starts each subvolume from the empty one.
\<close>

theorem zones_apart_whatever_the_flag:
  assumes "fst (PlanBricks env req) = None" and "GetAvailableVgs env req = Inr vgs"
  shows "(\<forall>sv \<in> set (Subvols (snd (PlanBricks env req))).
            zonesApart vgs (ProvisionerType req) (sv_Bricks sv)) \<and>
         (\<not> SubvolZonesOverlap req \<longrightarrow>
            zonesApart vgs (ProvisionerType req)
              (concat (map sv_Bricks (Subvols (snd (PlanBricks env req)))))) \<and>
         planSubvol True prov sv (vgs, Z) = planSubvol True prov sv (vgs, {})"
proof (intro conjI impI)
  show "\<forall>sv \<in> set (Subvols (snd (PlanBricks env req))).
          zonesApart vgs (ProvisionerType req) (sv_Bricks sv)"
    using assms by (rule PlanBricks_zones(1))
  show "zonesApart vgs (ProvisionerType req)
          (concat (map sv_Bricks (Subvols (snd (PlanBricks env req)))))"
    if "\<not> SubvolZonesOverlap req"
    using assms that by (rule PlanBricks_zones(2))
  show "planSubvol True prov sv (vgs, Z) = planSubvol True prov sv (vgs, {})"
    by (simp add: planSubvol_def)
qed

theorem zones_apart_whatever_the_flag_witness:
  "fst (PlanBricks (sampleEnv twoZoneVgs) (twoSubvolReq\<lparr>SubvolZonesOverlap := True\<rparr>)) = None \<and>
   length (Subvols (snd (PlanBricks (sampleEnv twoZoneVgs)
     (twoSubvolReq\<lparr>SubvolZonesOverlap := True\<rparr>)))) = 2 \<and>
   list_all (\<lambda>sv. zonesApart twoZoneVgs ''lvm'' (sv_Bricks sv))
     (Subvols (snd (PlanBricks (sampleEnv twoZoneVgs)
        (twoSubvolReq\<lparr>SubvolZonesOverlap := True\<rparr>)))) \<and>
   map (\<lambda>sv. map b_PeerID (sv_Bricks sv))
     (Subvols (snd (PlanBricks (sampleEnv twoZoneVgs)
        (twoSubvolReq\<lparr>SubvolZonesOverlap := True\<rparr>)))) = [[''p1'', ''p2''], [''p1'', ''p2'']] \<and>
   fst (PlanBricks (sampleEnv twoZoneVgs) twoSubvolReq) = Some NoSpaceAvailable"
proof -
  let ?R = "twoSubvolReq\<lparr>SubvolZonesOverlap := True\<rparr>"
  have inv: "GetAvailableVgs (sampleEnv twoZoneVgs) ?R = Inr twoZoneVgs"
    by (simp add: sampleEnv_def)
  have ok: "fst (PlanBricks (sampleEnv twoZoneVgs) ?R) = None" by code_simp
  have two: "length (Subvols (snd (PlanBricks (sampleEnv twoZoneVgs) ?R))) = 2" by code_simp
  have prov: "ProvisionerType ?R = ''lvm''" by code_simp
  have peers: "map (\<lambda>sv. map b_PeerID (sv_Bricks sv))
      (Subvols (snd (PlanBricks (sampleEnv twoZoneVgs) ?R))) = [[''p1'', ''p2''], [''p1'', ''p2'']]"
    by code_simp
  have bad: "fst (PlanBricks (sampleEnv twoZoneVgs) twoSubvolReq) = Some NoSpaceAvailable"
    by code_simp
  from zones_apart_whatever_the_flag [OF ok inv] ok two prov peers bad
  show ?thesis by (simp add: list_all_iff)
qed

end
